theory Spec2Isabelle
  imports Main "HOL-Library.Word"
begin

section \<open>The file organizer (file\_organizer.cpp)\<close>

text \<open>
  The program walks a source directory, and moves every regular file into
  \<open>source/extension/YYYY/MM/DD/size\<close>, where the date comes from a chosen time
  attribute of the file and the size category from two thresholds. This theory embeds
  the functions of \<^verbatim>\<open>file_organizer.cpp\<close> over a model of the file system and
  proves properties of them.
\<close>

subsection \<open>Size thresholds and \<^verbatim>\<open>categorize_size\<close>\<close>

text \<open>\<^verbatim>\<open>uintmax_t\<close> is a 64-bit unsigned integer; subtraction wraps around.\<close>

type_synonym uintmax_t = "64 word"

datatype TimeAttribute = Creation | Modification | Access

record SizeThresholds =
  small :: uintmax_t
  medium :: uintmax_t

text \<open>The member initialisers of \<^verbatim>\<open>struct SizeThresholds\<close>: 1 MB and 10 MB.\<close>

definition default_thresholds :: SizeThresholds where
  "default_thresholds = \<lparr>small = 1 * 1024 * 1024, medium = 10 * 1024 * 1024\<rparr>"

definition categorize_size :: "uintmax_t \<Rightarrow> SizeThresholds \<Rightarrow> string" where
  "categorize_size sz thresholds =
     (if sz < small thresholds then ''small''
      else if sz < medium thresholds then ''medium''
      else ''large'')"

subsection \<open>Paths\<close>

text \<open>
  A \<^verbatim>\<open>fs::path\<close> is modelled by the list of its components, outermost first;
  the root directory is the empty list. Two paths are equal when their components are,
  as \<^verbatim>\<open>operator==\<close> compares them. \<^verbatim>\<open>operator/\<close> with a relative right
  operand appends its components; an empty string adds no component (in C++ it only
  adds a trailing separator, which names the same directory). The components of the
  model's paths are plain names: a component \<open>.\<close> or \<open>..\<close> is not resolved, and a
  theorem about a path the user gives says that it has none.
\<close>

type_synonym path = "string list"

text \<open>
  Converting a string to a path splits it at the separators; empty components (from a
  leading, trailing or repeated separator) name nothing and are dropped.
\<close>

function path_of :: "string \<Rightarrow> path" where
  "path_of [] = []"
| "path_of (c # cs) =
     (if c = CHR ''/'' then path_of cs
      else (c # takeWhile (\<lambda>x. x \<noteq> CHR ''/'') cs) # path_of (dropWhile (\<lambda>x. x \<noteq> CHR ''/'') cs))"
  by pat_completeness auto
termination
  by (relation "measure length") (auto simp: less_Suc_eq_le length_dropWhile_le)

text \<open>
  A component never contains a separator, so a string cut from a file name (its
  extension, or its stem with a suffix) converts to one component, or to none when it
  is empty.
\<close>

definition name_path :: "string \<Rightarrow> path" where
  "name_path s = (if s = [] then [] else [s])"

definition filename :: "path \<Rightarrow> string" where
  "filename p = (if p = [] then [] else last p)"

definition parent_path :: "path \<Rightarrow> path" where
  "parent_path p = butlast p"

text \<open>
  \<^verbatim>\<open>path::extension\<close> of a file name, as libstdc++ finds it: a name of at most
  two characters that starts with a dot (\<open>.\<close>, \<open>..\<close>, \<open>.x\<close>) has none; otherwise the
  extension starts at the rightmost dot, unless there is no dot or it is the first
  character. The result is the position of that dot.
\<close>

definition rfind_dot :: "string \<Rightarrow> nat option" where
  "rfind_dot s =
     (if CHR ''.'' \<in> set s
      then Some (length s - Suc (length (takeWhile (\<lambda>c. c \<noteq> CHR ''.'') (rev s))))
      else None)"

definition find_extension :: "string \<Rightarrow> nat option" where
  "find_extension s =
     (if s = [] then None
      else if length s \<le> 2 \<and> hd s = CHR ''.'' then None
      else (case rfind_dot s of
              None \<Rightarrow> None
            | Some pos \<Rightarrow> if pos = 0 then None else Some pos))"

definition extension :: "string \<Rightarrow> string" where
  "extension s = (case find_extension s of None \<Rightarrow> [] | Some pos \<Rightarrow> drop pos s)"

definition stem :: "string \<Rightarrow> string" where
  "stem s = (case find_extension s of None \<Rightarrow> s | Some pos \<Rightarrow> take pos s)"

definition has_extension :: "string \<Rightarrow> bool" where
  "has_extension s = (extension s \<noteq> [])"

text \<open>
  Decimal numerals: \<^verbatim>\<open>std::to_string\<close> of the counter of \<^verbatim>\<open>move_file\<close>, which is
  positive, and the numeral of an \<^verbatim>\<open>int\<close>, for the year of a date.
\<close>

definition digit_char :: "nat \<Rightarrow> char" where
  "digit_char d = ''0123456789'' ! d"

fun to_string :: "nat \<Rightarrow> string" where
  "to_string n = (if n < 10 then [digit_char n] else to_string (n div 10) @ [digit_char (n mod 10)])"

declare to_string.simps [simp del]

definition int_to_string :: "int \<Rightarrow> string" where
  "int_to_string i = (if i < 0 then CHR ''-'' # to_string (nat (- i)) else to_string (nat i))"

subsection \<open>The file system and the platform\<close>

text \<open>
  The file system is the listing of its entries, in the order in which a directory
  iteration meets them: each entry is a path with its inode. An inode carries what the
  program reads: the type, the bytes of a regular file, and the results of the three
  time queries and of the size query (\<open>None\<close> or \<open>False\<close> when the query fails).
  Times are nanoseconds since the epoch, the \<^verbatim>\<open>system_clock\<close> duration. There are
  no symbolic links or special files, every file can be opened and read, every
  directory can be searched, and file names stay within the length the platform allows,
  also after a number is added to them. The root directory always exists. In the
  listing of a real tree no path occurs twice and the parent of every entry is a
  directory; the definitions do not depend on that, and a theorem that needs it says
  so.
\<close>

datatype file_type = regular | directory

type_synonym time_point = int

record inode =
  kind :: file_type
  bytes :: string
  btime :: "time_point option"
  mtime :: "time_point option"
  atime :: "time_point option"
  size_known :: bool

type_synonym filesystem = "(path \<times> inode) list"

text \<open>
  What the program gets from the platform and does not decide: the local calendar of
  \<^verbatim>\<open>localtime_r\<close>; the readings of \<^verbatim>\<open>system_clock::now()\<close> and of the file
  clock's \<^verbatim>\<open>now()\<close> (both counted from the same epoch), which are taken at
  different instants and differ from call to call, and so are given for the path whose
  time is being asked; the access time the platform gives a file that is read (its
  policy may leave the time as it is, or set it to the present); the current working
  directory; and which directory creations and renames the operating system refuses
  (permissions, a read-only or full device).
\<close>

record tm =
  tm_year :: int
  tm_mon :: nat
  tm_mday :: nat

record platform =
  localtime_r :: "int \<Rightarrow> tm"
  system_clock_now :: "path \<Rightarrow> time_point"
  file_clock_now :: "path \<Rightarrow> time_point"
  atime_after_read :: "path \<Rightarrow> inode \<Rightarrow> time_point option"
  current_path :: path
  mkdir_fails :: "path \<Rightarrow> bool"
  rename_fails :: "path \<Rightarrow> path \<Rightarrow> bool"

definition root_inode :: inode where
  "root_inode = \<lparr>kind = directory, bytes = [], btime = None, mtime = None, atime = None,
     size_known = False\<rparr>"

definition status :: "filesystem \<Rightarrow> path \<Rightarrow> inode option" where
  "status fs p = (if p = [] then Some root_inode else map_of fs p)"

definition exists_path :: "filesystem \<Rightarrow> path \<Rightarrow> bool" where
  "exists_path fs p = (status fs p \<noteq> None)"

definition is_regular_file :: "filesystem \<Rightarrow> path \<Rightarrow> bool" where
  "is_regular_file fs p = (case status fs p of None \<Rightarrow> False | Some i \<Rightarrow> kind i = regular)"

definition is_directory :: "filesystem \<Rightarrow> path \<Rightarrow> bool" where
  "is_directory fs p = (case status fs p of None \<Rightarrow> False | Some i \<Rightarrow> kind i = directory)"

text \<open>
  Reading a whole file through an \<^verbatim>\<open>ifstream\<close>: a path that is missing or is a
  directory yields the empty string. The read of a regular file also has an effect: the
  platform gives the file its access time after the read.
\<close>

definition read_file :: "filesystem \<Rightarrow> path \<Rightarrow> string" where
  "read_file fs p =
     (case status fs p of
        None \<Rightarrow> []
      | Some i \<Rightarrow> if kind i = regular then bytes i else [])"

definition accessed :: "platform \<Rightarrow> path \<Rightarrow> filesystem \<Rightarrow> filesystem" where
  "accessed env p fs =
     map (\<lambda>(q, i). if q = p \<and> kind i = regular then (q, i\<lparr>atime := atime_after_read env p i\<rparr>)
                   else (q, i)) fs"

text \<open>\<^verbatim>\<open>fs::file_size(p, ec)\<close>: the error code is set for a directory or a missing file.\<close>

definition file_size :: "filesystem \<Rightarrow> path \<Rightarrow> uintmax_t option" where
  "file_size fs p =
     (case status fs p of
        None \<Rightarrow> None
      | Some i \<Rightarrow> if kind i = regular \<and> size_known i then Some (of_nat (length (bytes i))) else None)"

definition last_write_time :: "filesystem \<Rightarrow> path \<Rightarrow> time_point option" where
  "last_write_time fs p = (case status fs p of None \<Rightarrow> None | Some i \<Rightarrow> mtime i)"

definition stat_atime :: "filesystem \<Rightarrow> path \<Rightarrow> time_point option" where
  "stat_atime fs p = (case status fs p of None \<Rightarrow> None | Some i \<Rightarrow> atime i)"

text \<open>\<open>below d p\<close>: the path \<open>p\<close> lies strictly inside the directory \<open>d\<close>.\<close>

definition below :: "path \<Rightarrow> path \<Rightarrow> bool" where
  "below d p = (length d < length p \<and> take (length d) p = d)"

text \<open>
  \<^verbatim>\<open>fs::create_directories(p, ec)\<close> walks the prefixes of \<open>p\<close> from the outermost:
  an existing directory is passed, an existing file stops the walk with an error, a
  missing one is created unless the platform refuses. What was created before a failure
  stays. The result is true when the directory \<open>p\<close> itself was created.
\<close>

definition new_directory :: "platform \<Rightarrow> path \<Rightarrow> inode" where
  "new_directory env d = \<lparr>kind = directory, bytes = [], btime = Some (system_clock_now env d),
     mtime = Some (system_clock_now env d), atime = Some (system_clock_now env d),
     size_known = False\<rparr>"

fun make_directories :: "platform \<Rightarrow> path list \<Rightarrow> filesystem \<Rightarrow> filesystem \<times> bool" where
  "make_directories env [] fs = (fs, True)"
| "make_directories env (d # ds) fs =
     (case status fs d of
        Some i \<Rightarrow> if kind i = directory then make_directories env ds fs else (fs, False)
      | None \<Rightarrow>
          if mkdir_fails env d then (fs, False)
          else make_directories env ds (fs @ [(d, new_directory env d)]))"

definition prefixes_of :: "path \<Rightarrow> path list" where
  "prefixes_of p = map (\<lambda>k. take k p) [1..<Suc (length p)]"

definition create_directories :: "platform \<Rightarrow> path \<Rightarrow> filesystem \<Rightarrow> filesystem \<times> bool" where
  "create_directories env p fs =
     (case make_directories env (prefixes_of p) fs of
        (fs', ok) \<Rightarrow> (fs', ok \<and> \<not> exists_path fs p))"

text \<open>
  \<^verbatim>\<open>fs::rename(old, new)\<close>, the POSIX \<^verbatim>\<open>rename\<close>: \<open>None\<close> is the
  \<^verbatim>\<open>filesystem_error\<close> it throws, and then nothing has changed. On success the inode
  (bytes and times) is the same under the new path; a regular file replaces an existing
  regular file, a directory moves with everything below it.
\<close>

definition moved_by :: "inode \<Rightarrow> path \<Rightarrow> path \<Rightarrow> bool" where
  "moved_by i old p = (p = old \<or> (kind i = directory \<and> below old p))"

definition rekey :: "inode \<Rightarrow> path \<Rightarrow> path \<Rightarrow> filesystem \<Rightarrow> filesystem" where
  "rekey i old new fs =
     map (\<lambda>(p, j). if moved_by i old p then (new @ drop (length old) p, j) else (p, j))
       (filter (\<lambda>(p, j). p \<noteq> new) fs)"

definition rename :: "platform \<Rightarrow> path \<Rightarrow> path \<Rightarrow> filesystem \<Rightarrow> filesystem option" where
  "rename env old new fs =
     (case status fs old of
        None \<Rightarrow> None
      | Some i \<Rightarrow>
          if old = [] \<or> new = [] \<or> rename_fails env old new then None
          else if old = new then Some fs
          else if \<not> is_directory fs (parent_path new) then None
          else if kind i = directory \<and> below old new then None
          else (case status fs new of
                  None \<Rightarrow> Some (rekey i old new fs)
                | Some j \<Rightarrow>
                    if kind i \<noteq> kind j then None
                    else if kind j = directory \<and> (\<exists>p \<in> set (map fst fs). below new p) then None
                    else Some (rekey i old new fs)))"

subsection \<open>What the program prints\<close>

text \<open>
  One constructor for each message of the program, with the paths it names. The
  messages on \<^verbatim>\<open>std::cerr\<close> are the warnings and errors.
\<close>

datatype event =
    Warning_creation_time_not_available path
  | Error_modification_time path
  | Error_access_time path
  | Error_file_size path
  | Skipping_correct_location path
  | Skipping_matches_existing path
  | DryRun_would_move path path
  | Moved_message path path
  | Error_unable_to_move path path
  | Error_during_file_collection path
  | Collected_files nat
  | Skipping_does_not_exist path
  | DryRun_would_create_directory path
  | Error_unable_to_create_directory path
  | Created_directory path
  | Error_source_directory_not_specified
  | Terminate_called_after_throwing
  | Usage
  | Settings path
  | Completed

subsection \<open>\<^verbatim>\<open>get_file_time\<close>\<close>

text \<open>
  \<^verbatim>\<open>get_creation_time\<close> asks \<^verbatim>\<open>statx\<close> for the birth time: \<open>None\<close> is its
  \<^verbatim>\<open>false\<close> (the call failed, or the birth time is not in the returned mask).
  The program only builds where \<^verbatim>\<open>HAS_STATX\<close> is 1 (it includes Linux headers
  unconditionally), so the creation case always tries it.
\<close>

definition get_creation_time :: "filesystem \<Rightarrow> path \<Rightarrow> time_point option" where
  "get_creation_time fs file_path =
     (case status fs file_path of None \<Rightarrow> None | Some i \<Rightarrow> btime i)"

text \<open>
  The body of \<^verbatim>\<open>case TimeAttribute::Modification\<close>, which the creation case falls
  through to. The conversion between the two clocks subtracts the file clock's reading
  of the present and adds the system clock's; the two readings are taken one after the
  other, so the result is the modification time shifted by their difference.
\<close>

definition modification_case :: "platform \<Rightarrow> filesystem \<Rightarrow> path \<Rightarrow> time_point \<times> event list" where
  "modification_case env fs file_path =
     (case last_write_time fs file_path of
        None \<Rightarrow> (system_clock_now env file_path, [Error_modification_time file_path])
      | Some ftime \<Rightarrow>
          (ftime - file_clock_now env file_path + system_clock_now env file_path, []))"

definition get_file_time ::
  "platform \<Rightarrow> filesystem \<Rightarrow> path \<Rightarrow> TimeAttribute \<Rightarrow> time_point \<times> event list" where
  "get_file_time env fs file_path attr =
     (case attr of
        Creation \<Rightarrow>
          (case get_creation_time fs file_path of
             Some file_time \<Rightarrow> (file_time, [])
           | None \<Rightarrow>
               (case modification_case env fs file_path of
                  (t, ev) \<Rightarrow> (t, Warning_creation_time_not_available file_path # ev)))
      | Modification \<Rightarrow> modification_case env fs file_path
      | Access \<Rightarrow>
          (case stat_atime fs file_path of
             Some file_time \<Rightarrow> (file_time, [])
           | None \<Rightarrow> (system_clock_now env file_path, [Error_access_time file_path])))"

subsection \<open>\<^verbatim>\<open>get_metadata_based_dir\<close>\<close>

text \<open>
  \<^verbatim>\<open>system_clock::to_time_t\<close> casts the nanoseconds to seconds, truncating towards
  zero. \<^verbatim>\<open>std::put_time\<close> with \<^verbatim>\<open>%Y/%m/%d\<close> prints the year, and the month and
  the day of the month with two digits.
\<close>

definition to_time_t :: "time_point \<Rightarrow> int" where
  "to_time_t t = (if t < 0 then - ((- t) div 1000000000) else t div 1000000000)"

definition two_digits :: "nat \<Rightarrow> string" where
  "two_digits n = (if n < 10 then CHR ''0'' # to_string n else to_string n)"

definition put_time_Ymd :: "tm \<Rightarrow> string" where
  "put_time_Ymd t =
     int_to_string (tm_year t + 1900) @ ''/'' @ two_digits (tm_mon t + 1) @ ''/'' @ two_digits (tm_mday t)"

definition get_metadata_based_dir ::
  "platform \<Rightarrow> filesystem \<Rightarrow> path \<Rightarrow> TimeAttribute \<Rightarrow> SizeThresholds \<Rightarrow> string \<times> event list" where
  "get_metadata_based_dir env fs file_path attr thresholds =
     (case get_file_time env fs file_path attr of
        (file_time, ev) \<Rightarrow>
          (let date = put_time_Ymd (localtime_r env (to_time_t file_time));
               (file_size, ev') =
                  (case file_size fs file_path of
                     None \<Rightarrow> (0, [Error_file_size file_path])
                   | Some n \<Rightarrow> (n, []));
               size_category = categorize_size file_size thresholds
           in (date @ ''/'' @ size_category, ev @ ev')))"

subsection \<open>\<^verbatim>\<open>move_file\<close>\<close>

text \<open>
  The name tried at each turn of the \<^verbatim>\<open>do ... while\<close> loop: the parent directory,
  then stem, underscore, counter and extension.
\<close>

definition numbered_name :: "path \<Rightarrow> nat \<Rightarrow> path" where
  "numbered_name target_file counter =
     parent_path target_file @
       name_path (stem (filename target_file) @ ''_'' @ to_string counter @ extension (filename target_file))"

lemma digit_char_in: "d < 10 \<Longrightarrow> digit_char d \<in> set ''0123456789''"
  unfolding digit_char_def by (rule nth_mem) simp

lemma to_string_chars: "c \<in> set (to_string n) \<Longrightarrow> c \<in> set ''0123456789''"
proof (induction n rule: to_string.induct)
  case (1 n)
  show ?case
  proof (cases "n < 10")
    case True
    with "1.prems" show ?thesis using digit_char_in[of n] by (simp add: to_string.simps[of n])
  next
    case False
    with "1.prems" have "c \<in> set (to_string (n div 10)) \<or> c = digit_char (n mod 10)"
      by (auto simp add: to_string.simps[of n])
    then show ?thesis using "1.IH" False digit_char_in[of "n mod 10"] by auto
  qed
qed

lemma to_string_nonempty: "to_string n \<noteq> []"
  by (simp add: to_string.simps[of n])

lemma digit_char_inj: "a < 10 \<Longrightarrow> b < 10 \<Longrightarrow> digit_char a = digit_char b \<Longrightarrow> a = b"
proof -
  assume a: "a < 10" and b: "b < 10" and e: "digit_char a = digit_char b"
  have d: "distinct ''0123456789''" by simp
  have "length ''0123456789'' = 10" by simp
  with a b e d show ?thesis unfolding digit_char_def
    by (metis nth_eq_iff_index_eq)
qed

lemma to_string_inj: "to_string n = to_string m \<Longrightarrow> n = m"
proof (induction n arbitrary: m rule: to_string.induct)
  case (1 n)
  show ?case
  proof (cases "n < 10")
    case True
    have "m < 10"
    proof (rule ccontr)
      assume "\<not> m < 10"
      then have "length (to_string m) \<ge> 2"
        using to_string_nonempty[of "m div 10"] by (simp add: to_string.simps[of m] Suc_le_eq)
      moreover have "length (to_string n) = 1" using True by (simp add: to_string.simps[of n])
      ultimately show False using "1.prems" by simp
    qed
    with True "1.prems" show ?thesis
      using digit_char_inj[of n m] by (simp add: to_string.simps[of n] to_string.simps[of m])
  next
    case False
    have m: "\<not> m < 10"
    proof
      assume "m < 10"
      then have "length (to_string m) = 1" by (simp add: to_string.simps[of m])
      moreover have "length (to_string n) \<ge> 2"
        using False to_string_nonempty[of "n div 10"] by (simp add: to_string.simps[of n] Suc_le_eq)
      ultimately show False using "1.prems" by simp
    qed
    from False m "1.prems"
    have "to_string (n div 10) @ [digit_char (n mod 10)] = to_string (m div 10) @ [digit_char (m mod 10)]"
      by (simp add: to_string.simps[of n] to_string.simps[of m])
    then have "to_string (n div 10) = to_string (m div 10)"
      and "digit_char (n mod 10) = digit_char (m mod 10)"
      by simp_all
    then have "n div 10 = m div 10" and "n mod 10 = m mod 10"
      using "1.IH"[OF False] digit_char_inj[of "n mod 10" "m mod 10"] by simp_all
    then show ?thesis by (metis div_mult_mod_eq)
  qed
qed

lemma numbered_name_inj: "numbered_name t n = numbered_name t m \<Longrightarrow> n = m"
  by (auto simp: numbered_name_def name_path_def dest: to_string_inj)

lemma numbered_name_not_root: "numbered_name t n \<noteq> []"
  by (simp add: numbered_name_def name_path_def)

lemma exists_path_listed: "exists_path fs p \<Longrightarrow> p \<noteq> [] \<Longrightarrow> p \<in> set (map fst fs)"
  by (force simp: exists_path_def status_def dest!: map_of_SomeD)

lemma filter_shrinks:
  assumes "x \<in> set xs" and "Q x" and "\<not> P x" and "\<And>y. P y \<Longrightarrow> Q y"
  shows "length (filter P xs) < length (filter Q xs)"
proof -
  have a: "filter P (filter Q xs) = filter P xs"
    using assms(4) by (induction xs) auto
  have "x \<in> set (filter Q xs)" using assms(1,2) by simp
  then have "length (filter P (filter Q xs)) < length (filter Q xs)"
    using assms(3) by (rule length_filter_less)
  then show ?thesis unfolding a .
qed

text \<open>
  The loop itself, entered with the counter at 1: it returns the first numbered name
  that does not exist. The listing is finite and the numbered names differ, so it ends.
  The counter of the program is an \<^verbatim>\<open>int\<close>; it stays below \<open>2^31\<close> on any file
  system with fewer than \<open>2^31 - 1\<close> entries in one directory.
\<close>

function unique_target :: "filesystem \<Rightarrow> path \<Rightarrow> nat \<Rightarrow> path" where
  "unique_target fs target_file counter =
     (let final_target = numbered_name target_file counter
      in if exists_path fs final_target then unique_target fs target_file (counter + 1)
         else final_target)"
  by pat_completeness auto
termination
proof (relation "measure (\<lambda>(fs, t, n). length (filter (\<lambda>p. \<exists>k\<ge>n. p = numbered_name t k) (map fst fs)))")
  show "wf (measure (\<lambda>(fs, t, n). length (filter (\<lambda>p. \<exists>k\<ge>n. p = numbered_name t k) (map fst fs))))"
    by simp
next
  fix fs :: filesystem and target_file :: path and counter :: nat and x
  assume x: "x = numbered_name target_file counter" and e: "exists_path fs x"
  have mem: "x \<in> set (map fst fs)"
    using e x by (intro exists_path_listed) (simp_all add: numbered_name_not_root)
  have "length (filter (\<lambda>p. \<exists>k\<ge>counter + 1. p = numbered_name target_file k) (map fst fs))
      < length (filter (\<lambda>p. \<exists>k\<ge>counter. p = numbered_name target_file k) (map fst fs))"
  proof (rule filter_shrinks[OF mem])
    show "\<exists>k\<ge>counter. x = numbered_name target_file k" using x by auto
    show "\<not> (\<exists>k\<ge>counter + 1. x = numbered_name target_file k)"
      using x by (auto dest: numbered_name_inj)
    show "\<exists>k\<ge>counter. y = numbered_name target_file k"
      if "\<exists>k\<ge>counter + 1. y = numbered_name target_file k" for y
    proof -
      from that obtain k where "counter + 1 \<le> k" and y: "y = numbered_name target_file k"
        by blast
      then have "counter \<le> k" by simp
      with y show ?thesis by blast
    qed
  qed
  then show "((fs, target_file, counter + 1), (fs, target_file, counter))
      \<in> measure (\<lambda>(fs, t, n). length (filter (\<lambda>p. \<exists>k\<ge>n. p = numbered_name t k) (map fst fs)))"
    by simp
qed

declare unique_target.simps [simp del]

text \<open>
  The result of handling one file, one constructor for each way out of
  \<^verbatim>\<open>move_file\<close> and of the loop body around it: the two \<^verbatim>\<open>continue\<close> statements
  of the loop (the file is gone; its directory could not be created) and the five
  \<^verbatim>\<open>return\<close> statements of \<^verbatim>\<open>move_file\<close>, of which only the last returns
  \<^verbatim>\<open>false\<close>.
\<close>

datatype outcome =
    SkippedMissing
  | FailedCreateDirectory path
  | SkippedAlreadyCorrect
  | SkippedIdentical
  | WouldMove path path
  | Moved path path
  | FailedRename path path

fun returns_true :: "outcome \<Rightarrow> bool" where
  "returns_true (FailedRename s t) = False"
| "returns_true _ = True"

text \<open>
  When the target exists, \<^verbatim>\<open>move_file\<close> reads the source and the target to the
  end before it decides anything, in a dry run too; the file system it goes on with is
  the one after these two reads.
\<close>

definition move_file ::
  "platform \<Rightarrow> path \<Rightarrow> path \<Rightarrow> bool \<Rightarrow> bool \<Rightarrow> filesystem \<Rightarrow> filesystem \<times> outcome \<times> event list" where
  "move_file env source_file target_file dry_run verbose fs =
     (if source_file = target_file
      then (fs, SkippedAlreadyCorrect, if verbose then [Skipping_correct_location source_file] else [])
      else
        (case (if exists_path fs target_file
               then (let fs_read = accessed env target_file (accessed env source_file fs)
                     in if read_file fs source_file \<noteq> read_file fs target_file
                        then (fs_read, Some (unique_target fs_read target_file 1))
                        else (fs_read, None))
               else (fs, Some target_file)) of
           (fs_read, None) \<Rightarrow>
             (fs_read, SkippedIdentical,
              if verbose then [Skipping_matches_existing source_file] else [])
         | (fs_read, Some final_target) \<Rightarrow>
             if dry_run
             then (fs_read, WouldMove source_file final_target,
                   [DryRun_would_move source_file final_target])
             else (case rename env source_file final_target fs_read of
                     Some fs' \<Rightarrow>
                       (fs', Moved source_file final_target,
                        if verbose then [Moved_message source_file final_target] else [])
                   | None \<Rightarrow>
                       (fs_read, FailedRename source_file final_target,
                        [Error_unable_to_move source_file final_target]))))"

subsection \<open>\<^verbatim>\<open>collect_all_files\<close>\<close>

text \<open>
  A \<^verbatim>\<open>recursive_directory_iterator\<close> meets the entries below the directory, in the
  order of the listing; its constructor throws when the path is not a directory, and
  the function catches that and returns what it has, nothing.
\<close>

definition recursive_directory_iterator :: "filesystem \<Rightarrow> path \<Rightarrow> path list option" where
  "recursive_directory_iterator fs d =
     (if is_directory fs d then Some (filter (below d) (map fst fs)) else None)"

definition collect_all_files :: "path \<Rightarrow> bool \<Rightarrow> filesystem \<Rightarrow> path list \<times> event list" where
  "collect_all_files src_directory verbose fs =
     (case (case recursive_directory_iterator fs src_directory of
              Some entries \<Rightarrow> (filter (is_regular_file fs) entries, [])
            | None \<Rightarrow> ([], [Error_during_file_collection src_directory])) of
        (files, ev) \<Rightarrow> (files, ev @ (if verbose then [Collected_files (length files)] else [])))"

subsection \<open>\<^verbatim>\<open>move_files_by_extension_and_metadata\<close>\<close>

text \<open>The local variables of the loop body that name where a file goes.\<close>

definition file_extension :: "path \<Rightarrow> string" where
  "file_extension file_path =
     (if has_extension (filename file_path) then drop 1 (extension (filename file_path))
      else ''no_extension'')"

definition target_directory ::
  "platform \<Rightarrow> filesystem \<Rightarrow> path \<Rightarrow> TimeAttribute \<Rightarrow> SizeThresholds \<Rightarrow> path \<Rightarrow> path" where
  "target_directory env fs src_directory attr thresholds file_path =
     (let extension_directory = src_directory @ name_path (file_extension file_path);
          metadata_subdir = fst (get_metadata_based_dir env fs file_path attr thresholds)
      in extension_directory @ path_of metadata_subdir)"

text \<open>
  \<^verbatim>\<open>target_directory / file_path.filename()\<close>: the last component of the file's
  path, appended as it is (the root has none).
\<close>

definition target_file_path ::
  "platform \<Rightarrow> filesystem \<Rightarrow> path \<Rightarrow> TimeAttribute \<Rightarrow> SizeThresholds \<Rightarrow> path \<Rightarrow> path" where
  "target_file_path env fs src_directory attr thresholds file_path =
     target_directory env fs src_directory attr thresholds file_path @
       (if file_path = [] then [] else [filename file_path])"

text \<open>The loop body, for one file of the snapshot.\<close>

definition process_file ::
  "platform \<Rightarrow> path \<Rightarrow> TimeAttribute \<Rightarrow> SizeThresholds \<Rightarrow> bool \<Rightarrow> bool \<Rightarrow> filesystem \<Rightarrow> path
     \<Rightarrow> filesystem \<times> outcome \<times> event list" where
  "process_file env src_directory attr thresholds dry_run verbose fs file_path =
     (if \<not> exists_path fs file_path
      then (fs, SkippedMissing, if verbose then [Skipping_does_not_exist file_path] else [])
      else
        (let ev = snd (get_metadata_based_dir env fs file_path attr thresholds);
             target_dir = target_directory env fs src_directory attr thresholds file_path;
             target_file = target_file_path env fs src_directory attr thresholds file_path
         in if \<not> exists_path fs target_dir
            then (if dry_run
                  then (case move_file env file_path target_file dry_run verbose fs of
                          (fs', out, ev') \<Rightarrow>
                            (fs', out,
                             ev @ (if verbose then [DryRun_would_create_directory target_dir] else []) @ ev'))
                  else (case create_directories env target_dir fs of
                          (fs', created) \<Rightarrow>
                            if \<not> created
                            then (fs', FailedCreateDirectory target_dir,
                                  ev @ [Error_unable_to_create_directory target_dir])
                            else (case move_file env file_path target_file dry_run verbose fs' of
                                    (fs'', out, ev') \<Rightarrow>
                                      (fs'', out,
                                       ev @ (if verbose then [Created_directory target_dir] else []) @ ev'))))
            else (case move_file env file_path target_file dry_run verbose fs of
                    (fs', out, ev') \<Rightarrow> (fs', out, ev @ ev'))))"

text \<open>The loop over the snapshot: the outcomes are in the order of the files.\<close>

fun process_files ::
  "platform \<Rightarrow> path \<Rightarrow> TimeAttribute \<Rightarrow> SizeThresholds \<Rightarrow> bool \<Rightarrow> bool \<Rightarrow> path list \<Rightarrow> filesystem
     \<Rightarrow> filesystem \<times> outcome list \<times> event list" where
  "process_files env src_directory attr thresholds dry_run verbose [] fs = (fs, [], [])"
| "process_files env src_directory attr thresholds dry_run verbose (file_path # files) fs =
     (case process_file env src_directory attr thresholds dry_run verbose fs file_path of
        (fs', out, ev) \<Rightarrow>
          (case process_files env src_directory attr thresholds dry_run verbose files fs' of
             (fs'', outs, evs) \<Rightarrow> (fs'', out # outs, ev @ evs)))"

definition move_files_by_extension_and_metadata ::
  "platform \<Rightarrow> path \<Rightarrow> TimeAttribute \<Rightarrow> SizeThresholds \<Rightarrow> bool \<Rightarrow> bool \<Rightarrow> filesystem
     \<Rightarrow> filesystem \<times> outcome list \<times> event list" where
  "move_files_by_extension_and_metadata env src_directory attr thresholds dry_run verbose fs =
     (case collect_all_files src_directory verbose fs of
        (files, ev) \<Rightarrow>
          (case process_files env src_directory attr thresholds dry_run verbose files fs of
             (fs', outs, evs) \<Rightarrow> (fs', outs, ev @ evs)))"

subsection \<open>\<^verbatim>\<open>main\<close>\<close>




section \<open>Reading a run\<close>

text \<open>
  What a dry run's outcome becomes when the move is carried out; the moves a dry run
  announced, read from what it printed; and the moves a run performed, read from its
  outcomes.
\<close>

fun performed :: "outcome \<Rightarrow> outcome" where
  "performed (WouldMove s t) = Moved s t"
| "performed out = out"

fun intended_moves :: "event list \<Rightarrow> (path \<times> path) list" where
  "intended_moves [] = []"
| "intended_moves (DryRun_would_move s t # evs) = (s, t) # intended_moves evs"
| "intended_moves (e # evs) = intended_moves evs"

fun performed_moves :: "outcome list \<Rightarrow> (path \<times> path) list" where
  "performed_moves [] = []"
| "performed_moves (Moved s t # outs) = (s, t) # performed_moves outs"
| "performed_moves (out # outs) = performed_moves outs"

text \<open>
  A file is in its place when its target is its own path and its target directory is a
  directory.
\<close>

definition settled :: "platform \<Rightarrow> path \<Rightarrow> TimeAttribute \<Rightarrow> SizeThresholds \<Rightarrow> filesystem \<Rightarrow> path \<Rightarrow> bool" where
  "settled env src attr th fs p =
     (target_file_path env fs src attr th p = p \<and> is_directory fs (target_directory env fs src attr th p))"

text \<open>
  The date under which a run files the file at a path: the year, month and day of the
  file's time in the local calendar.
\<close>

definition filing_date :: "platform \<Rightarrow> filesystem \<Rightarrow> path \<Rightarrow> TimeAttribute \<Rightarrow> string" where
  "filing_date env fs p attr =
     put_time_Ymd (localtime_r env (to_time_t (fst (get_file_time env fs p attr))))"


definition observed :: "TimeAttribute \<Rightarrow> inode \<Rightarrow> inode" where
  "observed attr i = (if attr = Access then i else i\<lparr>atime := None\<rparr>)"

definition seen :: "TimeAttribute \<Rightarrow> filesystem \<Rightarrow> path \<Rightarrow> inode option" where
  "seen attr fs p = map_option (observed attr) (status fs p)"

text \<open>
  What a listing of the tree shows when it leaves the access times out: the paths in
  their order and, for each, the kind, the bytes, the birth and modification times and
  whether the size can be asked.
\<close>

definition without_atimes :: "filesystem \<Rightarrow> filesystem" where
  "without_atimes fs = map (\<lambda>(p, i). (p, i\<lparr>atime := None\<rparr>)) fs"

section \<open>Example platforms and trees\<close>

text \<open>
  A platform that refuses nothing, whose calendar puts every time on 2 January 2024,
  whose file clock is read 40 nanoseconds after its system clock, and which sets the
  access time of a file that is read to the present; and the inodes of the example
  trees: a file whose modification and access times are
  readable and whose birth time is not, a file none of whose queries succeeds, and a
  directory.
\<close>

definition fixed_calendar :: "int \<Rightarrow> tm" where
  "fixed_calendar t = \<lparr>tm_year = 124, tm_mon = 0, tm_mday = 2\<rparr>"

definition willing_platform :: platform where
  "willing_platform = \<lparr>localtime_r = fixed_calendar,
     system_clock_now = (\<lambda>p. 5000000000), file_clock_now = (\<lambda>p. 5000000000 + 40),
     atime_after_read = (\<lambda>p i. Some 5000000000), current_path = [''home''],
     mkdir_fails = (\<lambda>d. False), rename_fails = (\<lambda>old new. False)\<rparr>"

definition plain_file :: "string \<Rightarrow> inode" where
  "plain_file s = \<lparr>kind = regular, bytes = s, btime = None, mtime = Some 3000000000,
     atime = Some 4000000000, size_known = True\<rparr>"

definition opaque_file :: "string \<Rightarrow> inode" where
  "opaque_file s = \<lparr>kind = regular, bytes = s, btime = None, mtime = None,
     atime = None, size_known = False\<rparr>"

definition a_directory :: inode where
  "a_directory = \<lparr>kind = directory, bytes = [], btime = Some 1000000000,
     mtime = Some 1000000000, atime = Some 1000000000, size_known = False\<rparr>"

text \<open>
  A tree in which a file \<open>src/in/x.txt\<close> meets a file of the same name in
  \<open>src/out\<close>; the two arguments are the bytes of the file already there and of the
  one coming in.
\<close>

definition collision_tree :: "string \<Rightarrow> string \<Rightarrow> filesystem" where
  "collision_tree old new =
     [([''src''], a_directory),
      ([''src'', ''in''], a_directory),
      ([''src'', ''in'', ''x.txt''], plain_file new),
      ([''src'', ''out''], a_directory),
      ([''src'', ''out'', ''x.txt''], plain_file old)]"

text \<open>
  The extension segment in the words of the specification, for comparison with
  \<open>file_extension\<close>: the extension without its dot, in lower case.
\<close>

definition to_lower :: "char \<Rightarrow> char" where
  "to_lower c = (if c \<in> set ''ABCDEFGHIJKLMNOPQRSTUVWXYZ'' then char_of (of_char c + (32::nat)) else c)"

definition spec_extension_segment :: "path \<Rightarrow> string" where
  "spec_extension_segment file_path =
     (if has_extension (filename file_path) then map to_lower (drop 1 (extension (filename file_path)))
      else ''no_extension'')"

text \<open>A tree with one file whose extension is in capitals.\<close>

definition mixed_case_tree :: filesystem where
  "mixed_case_tree =
     [([''src''], a_directory),
      ([''src'', ''Report.TXT''], plain_file ''abc'')]"

text \<open>A tree with one file whose size query fails.\<close>

definition unsized_file :: "string \<Rightarrow> inode" where
  "unsized_file s = \<lparr>kind = regular, bytes = s, btime = None, mtime = Some 3000000000,
     atime = Some 4000000000, size_known = False\<rparr>"

definition unsized_tree :: filesystem where
  "unsized_tree =
     [([''src''], a_directory),
      ([''src'', ''f.bin''], unsized_file ''0123456789'')]"



text \<open>The same platform mounted with \<^verbatim>\<open>noatime\<close>: a read leaves the access time as it is.\<close>

definition noatime_platform :: platform where
  "noatime_platform = willing_platform\<lparr>atime_after_read := (\<lambda>p i. atime i)\<rparr>"

text \<open>The platform that refuses nothing, at a later time: only the clocks differ.\<close>

definition later_platform :: platform where
  "later_platform = \<lparr>localtime_r = fixed_calendar,
     system_clock_now = (\<lambda>p. 9000000000), file_clock_now = (\<lambda>p. 9000000000 + 40),
     atime_after_read = (\<lambda>p i. Some 9000000000), current_path = [''home''],
     mkdir_fails = (\<lambda>d. False), rename_fails = (\<lambda>old new. False)\<rparr>"

text \<open>
  A platform whose calendar counts days of 86400 seconds from 2 January 2024, and a tree
  in which \<open>src/x.txt\<close> belongs to 2 January while the file of the same name and
  bytes already in the directory of 2 January has a time of 3 January.
\<close>

definition daily_calendar :: "int \<Rightarrow> tm" where
  "daily_calendar t = \<lparr>tm_year = 124, tm_mon = 0, tm_mday = 2 + nat (t div 86400)\<rparr>"

definition daily_platform :: platform where
  "daily_platform = \<lparr>localtime_r = daily_calendar,
     system_clock_now = (\<lambda>p. 5000000000), file_clock_now = (\<lambda>p. 5000000000 + 40),
     atime_after_read = (\<lambda>p i. Some 5000000000), current_path = [''home''],
     mkdir_fails = (\<lambda>d. False), rename_fails = (\<lambda>old new. False)\<rparr>"

definition late_file :: "string \<Rightarrow> inode" where
  "late_file s = \<lparr>kind = regular, bytes = s, btime = None, mtime = Some 90000000000000,
     atime = Some 90000000000000, size_known = True\<rparr>"

definition stale_tree :: filesystem where
  "stale_tree =
     [([''src''], a_directory),
      ([''src'', ''x.txt''], plain_file ''A''),
      ([''src'', ''txt''], a_directory),
      ([''src'', ''txt'', ''2024''], a_directory),
      ([''src'', ''txt'', ''2024'', ''01''], a_directory),
      ([''src'', ''txt'', ''2024'', ''01'', ''02''], a_directory),
      ([''src'', ''txt'', ''2024'', ''01'', ''02'', ''small''], a_directory),
      ([''src'', ''txt'', ''2024'', ''01'', ''02'', ''small'', ''x.txt''], late_file ''A'')]"

section \<open>Properties\<close>

subsection \<open>The size classifier\<close>

text \<open>
  Claim C6, as the code has it. \<^verbatim>\<open>categorize_size\<close> is a total function of the
  size and the thresholds: below \<open>small\<close> it answers small, otherwise below \<open>medium\<close>
  it answers medium, otherwise large, for every size and every pair of thresholds. The
  four boundary values \<open>small - 1\<close>, \<open>small\<close>, \<open>medium - 1\<close> and \<open>medium\<close> fall
  into small, medium, medium and large whenever \<open>0 < small < medium\<close>.
\<close>

theorem categorize_size_boundaries:
  "categorize_size sz th =
     (if sz < small th then ''small'' else if sz < medium th then ''medium'' else ''large'')
   \<and> (0 < small th \<and> small th < medium th \<longrightarrow>
        categorize_size (small th - 1) th = ''small''
      \<and> categorize_size (small th) th = ''medium''
      \<and> categorize_size (medium th - 1) th = ''medium''
      \<and> categorize_size (medium th) th = ''large'')"
proof -
  have rule: "categorize_size sz th =
     (if sz < small th then ''small'' else if sz < medium th then ''medium'' else ''large'')"
    by (simp add: categorize_size_def)
  have bounds: "categorize_size (small th - 1) th = ''small''
      \<and> categorize_size (small th) th = ''medium''
      \<and> categorize_size (medium th - 1) th = ''medium''
      \<and> categorize_size (medium th) th = ''large''"
    if pos: "0 < small th" and lt: "small th < medium th"
  proof -
    have a: "small th - 1 < small th"
      using pos by (simp add: word_less_nat_alt unat_minus_one unat_gt_0)
    have "0 < medium th" using pos lt by (meson less_trans)
    have b: "medium th - 1 < medium th"
      using \<open>0 < medium th\<close> by (simp add: word_less_nat_alt unat_minus_one unat_gt_0)
    have c: "\<not> medium th - 1 < small th"
      using lt \<open>0 < medium th\<close> by (simp add: word_less_nat_alt unat_minus_one unat_gt_0)
    show ?thesis using a b c lt by (auto simp: categorize_size_def)
  qed
  show ?thesis using rule bounds by blast
qed

text \<open>The boundary values at the default thresholds of 1 MB and 10 MB.\<close>

theorem categorize_size_boundaries_witness:
  "(0::uintmax_t) < small default_thresholds \<and> small default_thresholds < medium default_thresholds
   \<and> categorize_size 1048575 default_thresholds = ''small''
   \<and> categorize_size 1048576 default_thresholds = ''medium''
   \<and> categorize_size 10485759 default_thresholds = ''medium''
   \<and> categorize_size 10485760 default_thresholds = ''large''"
  using categorize_size_boundaries [of 0 default_thresholds]
  by (simp add: default_thresholds_def)

text \<open>
  Without that order the boundary values fall elsewhere. With \<^verbatim>\<open>--small 10 --medium 5\<close>
  (10 MB and 5 MB) the size \<open>small\<close> is large, not medium; with \<^verbatim>\<open>--small 0\<close> the
  size \<open>small - 1\<close> wraps around to the greatest size and is large, not small.
\<close>

theorem categorize_size_boundary_counterexample:
  "categorize_size (small \<lparr>small = 10485760, medium = 5242880\<rparr>)
       \<lparr>small = 10485760, medium = 5242880\<rparr> = ''large''
   \<and> categorize_size (small \<lparr>small = 0, medium = 10485760\<rparr> - 1)
       \<lparr>small = 0, medium = 10485760\<rparr> = ''large''"
  by (simp add: categorize_size_def)

subsection \<open>The time of a file\<close>

text \<open>
  Claim C2. \<^verbatim>\<open>get_file_time\<close> returns a time for every path and attribute; it has
  no failing result. When the birth time query fails, the creation case returns what
  the modification case returns, after a warning. When the modification time query
  fails, the modification case returns the reading of the system clock, and so does the
  access case when the access time query fails; so a file none of whose queries succeeds
  still gets the reading of the system clock for its creation time.
\<close>

theorem get_file_time_fallback_chain:
  "(get_creation_time fs p = None \<longrightarrow>
      fst (get_file_time env fs p Creation) = fst (get_file_time env fs p Modification)
    \<and> snd (get_file_time env fs p Creation) =
        Warning_creation_time_not_available p # snd (get_file_time env fs p Modification))
   \<and> (last_write_time fs p = None \<longrightarrow>
        get_file_time env fs p Modification = (system_clock_now env p, [Error_modification_time p]))
   \<and> (stat_atime fs p = None \<longrightarrow>
        get_file_time env fs p Access = (system_clock_now env p, [Error_access_time p]))
   \<and> (get_creation_time fs p = None \<and> last_write_time fs p = None \<longrightarrow>
        fst (get_file_time env fs p Creation) = system_clock_now env p)"
  by (auto simp: get_file_time_def modification_case_def split: option.splits prod.splits)

text \<open>A file none of whose time queries succeeds.\<close>

theorem get_file_time_fallback_chain_witness:
  "get_creation_time [([''src''], a_directory), ([''src'', ''f''], opaque_file ''x'')] [''src'', ''f''] = None
   \<and> last_write_time [([''src''], a_directory), ([''src'', ''f''], opaque_file ''x'')] [''src'', ''f''] = None
   \<and> stat_atime [([''src''], a_directory), ([''src'', ''f''], opaque_file ''x'')] [''src'', ''f''] = None
   \<and> fst (get_file_time willing_platform [([''src''], a_directory), ([''src'', ''f''], opaque_file ''x'')]
         [''src'', ''f''] Creation) = 5000000000
   \<and> get_file_time willing_platform [([''src''], a_directory), ([''src'', ''f''], opaque_file ''x'')]
         [''src'', ''f''] Access = (5000000000, [Error_access_time [''src'', ''f'']])"
  using get_file_time_fallback_chain [of "[([''src''], a_directory), ([''src'', ''f''], opaque_file ''x'')]"
      "[''src'', ''f'']" willing_platform]
  by (simp add: get_creation_time_def last_write_time_def stat_atime_def status_def opaque_file_def
      willing_platform_def)

subsection \<open>Facts about the file system operations\<close>

lemma rekey_regular:
  "kind i = regular \<Longrightarrow>
   rekey i old new fs =
     map (\<lambda>(p, j). if p = old then (new, j) else (p, j)) (filter (\<lambda>(p, j). p \<noteq> new) fs)"
  by (simp add: rekey_def moved_by_def)

lemma map_of_rekeyed:
  assumes "old \<noteq> new"
  shows "map_of (map (\<lambda>(p, j). if p = old then (new, j) else (p, j)) (filter (\<lambda>(p, j). p \<noteq> new) fs)) q =
     (if q = new then map_of fs old else if q = old then None else map_of fs q)"
proof (induction fs arbitrary: q)
  case Nil
  show ?case by simp
next
  case (Cons a fs)
  obtain r j where a: "a = (r, j)" by (cases a)
  consider "r = new" | "r = old" | "r \<noteq> new" "r \<noteq> old" by blast
  then show ?case
  proof cases
    case 1
    then show ?thesis using Cons.IH assms a by simp
  next
    case 2
    then show ?thesis using Cons.IH assms a by simp
  next
    case 3
    then show ?thesis using Cons.IH assms a by simp
  qed
qed

lemma status_rekey:
  assumes "kind i = regular" and "old \<noteq> new" and "new \<noteq> []" and "old \<noteq> []"
  shows "status (rekey i old new fs) p =
     (if p = new then status fs old else if p = old then None else status fs p)"
  unfolding status_def rekey_regular[OF assms(1)] map_of_rekeyed[OF assms(2)]
  using assms(3,4) by simp

lemma regular_not_root: "status fs p = Some i \<Longrightarrow> kind i = regular \<Longrightarrow> p \<noteq> []"
  by (auto simp: status_def root_inode_def)

lemma rename_regular:
  assumes "status fs old = Some i" and "kind i = regular" and "old \<noteq> new" and "new \<noteq> []"
    and "\<not> rename_fails env old new" and "is_directory fs (parent_path new)"
    and "\<not> exists_path fs new"
  shows "rename env old new fs = Some (rekey i old new fs)"
proof -
  have "old \<noteq> []" using assms(1,2) by (rule regular_not_root)
  then show ?thesis using assms by (simp add: rename_def exists_path_def)
qed

lemma status_append:
  "status fs d = None \<Longrightarrow> status (fs @ [(d, i)]) p = (if p = d then Some i else status fs p)"
  by (auto simp: status_def map_add_def split: option.splits if_splits)

lemma make_directories_keeps:
  "make_directories env ds fs = (fs', ok) \<Longrightarrow> status fs p \<noteq> None \<Longrightarrow> status fs' p = status fs p"
proof (induction ds arbitrary: fs)
  case Nil
  then show ?case by simp
next
  case (Cons d ds)
  then show ?case
    by (auto simp: status_append split: option.splits if_splits)
qed

lemma make_directories_elsewhere:
  "make_directories env ds fs = (fs', ok) \<Longrightarrow> p \<notin> set ds \<Longrightarrow> status fs' p = status fs p"
proof (induction ds arbitrary: fs)
  case Nil
  then show ?case by simp
next
  case (Cons d ds)
  then show ?case
    by (auto simp: status_append split: option.splits if_splits)
qed

lemma make_directories_made:
  "make_directories env ds fs = (fs', True) \<Longrightarrow> d \<in> set ds \<Longrightarrow> is_directory fs' d"
proof (induction ds arbitrary: fs)
  case Nil
  then show ?case by simp
next
  case (Cons a ds)
  show ?case
  proof (cases "d = a")
    case True
    show ?thesis
    proof (cases "status fs a")
      case None
      with Cons.prems have m: "make_directories env ds (fs @ [(a, new_directory env a)]) = (fs', True)"
        by (simp split: if_splits)
      have "status (fs @ [(a, new_directory env a)]) a \<noteq> None" using None by (simp add: status_append)
      from make_directories_keeps[OF m this] None True show ?thesis
        by (simp add: status_append is_directory_def new_directory_def)
    next
      case (Some i)
      with Cons.prems have k: "kind i = directory" and m: "make_directories env ds fs = (fs', True)"
        by (simp_all split: if_splits)
      have "status fs a \<noteq> None" using Some by simp
      from make_directories_keeps[OF m this] Some k True show ?thesis
        by (simp add: is_directory_def)
    qed
  next
    case False
    with Cons show ?thesis by (auto split: option.splits if_splits)
  qed
qed

lemma prefixes_of_length: "q \<in> set (prefixes_of p) \<Longrightarrow> length q \<le> length p"
  by (auto simp: prefixes_of_def)

lemma prefixes_of_self: "p \<noteq> [] \<Longrightarrow> p \<in> set (prefixes_of p)"
proof -
  assume "p \<noteq> []"
  then have k: "length p \<in> set [1..<Suc (length p)]" by (cases p) auto
  have "p = take (length p) p" by simp
  then show ?thesis unfolding prefixes_of_def set_map using k by (rule image_eqI)
qed

lemma create_directories_facts:
  assumes "create_directories env p fs = (fs', ok)"
  shows "exists_path fs q \<Longrightarrow> status fs' q = status fs q"
    and "length p < length q \<Longrightarrow> status fs' q = status fs q"
    and "ok \<Longrightarrow> is_directory fs' p"
proof -
  obtain ok' where m: "make_directories env (prefixes_of p) fs = (fs', ok')" and ok: "ok = (ok' \<and> \<not> exists_path fs p)"
    using assms by (auto simp: create_directories_def split: prod.splits)
  show "exists_path fs q \<Longrightarrow> status fs' q = status fs q"
    using make_directories_keeps[OF m] by (simp add: exists_path_def)
  show "length p < length q \<Longrightarrow> status fs' q = status fs q"
    using make_directories_elsewhere[OF m, of q] prefixes_of_length[of q p] by auto
  show "ok \<Longrightarrow> is_directory fs' p"
  proof -
    assume ok
    with ok have t: "ok' = True" and ne: "\<not> exists_path fs p" by simp_all
    then have "p \<noteq> []" by (auto simp: exists_path_def status_def)
    from make_directories_made[OF m[unfolded t] prefixes_of_self[OF this]] show ?thesis .
  qed
qed

subsection \<open>Facts about file names and the numbered names\<close>

lemma rfind_dot_none: "CHR ''.'' \<notin> set s \<Longrightarrow> rfind_dot s = None"
  by (simp add: rfind_dot_def)

lemma rfind_dot_last: "CHR ''.'' \<notin> set b \<Longrightarrow> rfind_dot (a @ CHR ''.'' # b) = Some (length a)"
proof -
  assume b: "CHR ''.'' \<notin> set b"
  have "takeWhile (\<lambda>c. c \<noteq> CHR ''.'') (rev b @ CHR ''.'' # rev a)
      = rev b @ takeWhile (\<lambda>c. c \<noteq> CHR ''.'') (CHR ''.'' # rev a)"
    by (rule takeWhile_append2) (use b in auto)
  then have "takeWhile (\<lambda>c. c \<noteq> CHR ''.'') (rev b @ CHR ''.'' # rev a) = rev b"
    by simp
  then show ?thesis by (simp add: rfind_dot_def)
qed

lemma find_extension_no_dot: "CHR ''.'' \<notin> set s \<Longrightarrow> find_extension s = None"
  by (simp add: find_extension_def rfind_dot_none)

lemma find_extension_leading_dot: "CHR ''.'' \<notin> set b \<Longrightarrow> find_extension (CHR ''.'' # b) = None"
  using rfind_dot_last[of b "[]"] by (simp add: find_extension_def)

lemma find_extension_inner_dot:
  assumes "CHR ''.'' \<notin> set b" and "a \<noteq> []" and "a @ CHR ''.'' # b \<noteq> ''..''"
  shows "find_extension (a @ CHR ''.'' # b) = Some (length a)"
proof -
  have "\<not> (length (a @ CHR ''.'' # b) \<le> 2 \<and> hd (a @ CHR ''.'' # b) = CHR ''.'')"
  proof
    assume h: "length (a @ CHR ''.'' # b) \<le> 2 \<and> hd (a @ CHR ''.'' # b) = CHR ''.''"
    then have "length a = 1" and "b = []" using assms(2) by (cases a; simp)+
    then obtain c where "a = [c]" by (cases a) simp_all
    with h \<open>b = []\<close> assms(3) show False by simp
  qed
  then show ?thesis using assms(1,2) by (simp add: find_extension_def rfind_dot_last)
qed

text \<open>Every name is of one of three shapes.\<close>

lemma name_shapes:
  obtains "CHR ''.'' \<notin> set s"
  | b where "s = CHR ''.'' # b" and "CHR ''.'' \<notin> set b"
  | a b where "s = a @ CHR ''.'' # b" and "CHR ''.'' \<notin> set b" and "a \<noteq> []"
proof (cases "CHR ''.'' \<in> set s")
  case False
  then show ?thesis using that(1) by simp
next
  case True
  then obtain a b where s: "s = a @ CHR ''.'' # b" and b: "CHR ''.'' \<notin> set b"
    using split_list_last by fastforce
  show ?thesis
  proof (cases "a = []")
    case True
    with s b show ?thesis using that(2) by simp
  next
    case False
    with s b show ?thesis using that(3) by simp
  qed
qed

lemma no_dot_in_number: "CHR ''.'' \<notin> set (to_string n)"
  using to_string_chars[of "CHR ''.''" n] by auto

lemma numbered_extension:
  assumes "name \<noteq> ''..''"
  shows "extension (stem name @ ''_'' @ to_string n @ extension name) = extension name
       \<and> stem (stem name @ ''_'' @ to_string n @ extension name) = stem name @ ''_'' @ to_string n"
proof (cases name rule: name_shapes)
  case 1
  then have "find_extension name = None" by (rule find_extension_no_dot)
  moreover have "find_extension (name @ ''_'' @ to_string n) = None"
    using 1 no_dot_in_number[of n] by (intro find_extension_no_dot) simp
  ultimately show ?thesis by (simp add: extension_def stem_def)
next
  case (2 b)
  then have "find_extension name = None" by (simp add: find_extension_leading_dot)
  moreover have "find_extension (CHR ''.'' # (b @ ''_'' @ to_string n)) = None"
    using 2 no_dot_in_number[of n] by (intro find_extension_leading_dot) simp
  ultimately show ?thesis using 2 by (simp add: extension_def stem_def)
next
  case (3 a b)
  then have e: "find_extension name = Some (length a)"
    using assms by (simp add: find_extension_inner_dot)
  have "(a @ ''_'' @ to_string n) @ CHR ''.'' # b \<noteq> ''..''" using 3(3) by (cases a) simp_all
  then have "find_extension ((a @ ''_'' @ to_string n) @ CHR ''.'' # b) = Some (length (a @ ''_'' @ to_string n))"
    using 3 by (intro find_extension_inner_dot) simp_all
  then show ?thesis using e 3 by (simp add: extension_def stem_def)
qed

lemma unique_target_first_free:
  "\<exists>N\<ge>n. unique_target fs t n = numbered_name t N
        \<and> \<not> exists_path fs (numbered_name t N)
        \<and> (\<forall>k. n \<le> k \<and> k < N \<longrightarrow> exists_path fs (numbered_name t k))"
proof (induction fs t n rule: unique_target.induct)
  case (1 fs t n)
  show ?case
  proof (cases "exists_path fs (numbered_name t n)")
    case False
    then have "unique_target fs t n = numbered_name t n"
      by (simp add: unique_target.simps[of fs t n])
    with False show ?thesis by (intro exI[of _ n]) auto
  next
    case True
    then have u: "unique_target fs t n = unique_target fs t (n + 1)"
      by (simp add: unique_target.simps[of fs t n])
    from "1.IH"[OF refl True] obtain N where N: "n + 1 \<le> N"
      "unique_target fs t (n + 1) = numbered_name t N"
      "\<not> exists_path fs (numbered_name t N)"
      "\<forall>k. n + 1 \<le> k \<and> k < N \<longrightarrow> exists_path fs (numbered_name t k)"
      by blast
    have "\<forall>k. n \<le> k \<and> k < N \<longrightarrow> exists_path fs (numbered_name t k)"
    proof (intro allI impI)
      fix k assume k: "n \<le> k \<and> k < N"
      show "exists_path fs (numbered_name t k)"
      proof (cases "k = n")
        case True
        with \<open>exists_path fs (numbered_name t n)\<close> show ?thesis by simp
      next
        case False
        with k have "n + 1 \<le> k \<and> k < N" by simp
        with N(4) show ?thesis by blast
      qed
    qed
    with N u show ?thesis by (intro exI[of _ N]) auto
  qed
qed

subsection \<open>Facts about reading a file\<close>

lemma map_of_accessed:
  "map_of (accessed env p fs) q =
     map_option (\<lambda>i. if q = p \<and> kind i = regular then i\<lparr>atime := atime_after_read env p i\<rparr> else i)
       (map_of fs q)"
  by (induction fs) (auto simp: accessed_def)

lemma status_accessed:
  "status (accessed env p fs) q =
     map_option (\<lambda>i. if q = p \<and> kind i = regular then i\<lparr>atime := atime_after_read env p i\<rparr> else i)
       (status fs q)"
  by (simp add: status_def map_of_accessed root_inode_def)


lemma exists_path_accessed: "exists_path (accessed env p fs) q = exists_path fs q"
  by (simp add: exists_path_def status_accessed)

lemma is_directory_accessed: "is_directory (accessed env p fs) q = is_directory fs q"
  by (cases "status fs q") (simp_all add: is_directory_def status_accessed)

lemma is_regular_file_accessed: "is_regular_file (accessed env p fs) q = is_regular_file fs q"
  by (cases "status fs q") (simp_all add: is_regular_file_def status_accessed)

lemma read_file_accessed: "read_file (accessed env p fs) q = read_file fs q"
  by (cases "status fs q") (simp_all add: read_file_def status_accessed)

lemma map_fst_accessed: "map fst (accessed env p fs) = map fst fs"
  by (induction fs) (auto simp: accessed_def)

lemma without_atimes_accessed: "without_atimes (accessed env p fs) = without_atimes fs"
  by (induction fs) (auto simp: accessed_def without_atimes_def)

lemma accessed_keeps: "\<forall>q i. atime_after_read env q i = atime i \<Longrightarrow> accessed env p fs = fs"
  by (induction fs) (auto simp: accessed_def)

lemmas accessed_simps = exists_path_accessed is_directory_accessed is_regular_file_accessed
  read_file_accessed map_fst_accessed without_atimes_accessed

lemma unique_target_cong:
  "(\<And>k. exists_path fs1 (numbered_name t k) = exists_path fs (numbered_name t k)) \<Longrightarrow>
   unique_target fs1 t n = unique_target fs t n"
proof (induction fs t n rule: unique_target.induct)
  case (1 fs t n)
  show ?case
  proof (cases "exists_path fs (numbered_name t n)")
    case True
    with "1.IH"[OF refl True "1.prems"] "1.prems" show ?thesis
      by (simp add: unique_target.simps[of fs t n] unique_target.simps[of fs1 t n])
  next
    case False
    with "1.prems" show ?thesis
      by (simp add: unique_target.simps[of fs t n] unique_target.simps[of fs1 t n])
  qed
qed

lemma unique_target_accessed: "unique_target (accessed env p fs) t n = unique_target fs t n"
  by (rule unique_target_cong) (simp add: exists_path_accessed)

text \<open>What \<^verbatim>\<open>move_file\<close> does once the target exists at another path.\<close>

lemma move_file_target_exists:
  assumes "s \<noteq> t" and "exists_path fs t"
  shows "move_file env s t dry verbose fs =
     (if read_file fs s = read_file fs t
      then (accessed env t (accessed env s fs), SkippedIdentical,
            if verbose then [Skipping_matches_existing s] else [])
      else if dry
      then (accessed env t (accessed env s fs), WouldMove s (unique_target fs t 1),
            [DryRun_would_move s (unique_target fs t 1)])
      else (case rename env s (unique_target fs t 1) (accessed env t (accessed env s fs)) of
              Some fs' \<Rightarrow>
                (fs', Moved s (unique_target fs t 1),
                 if verbose then [Moved_message s (unique_target fs t 1)] else [])
            | None \<Rightarrow>
                (accessed env t (accessed env s fs), FailedRename s (unique_target fs t 1),
                 [Error_unable_to_move s (unique_target fs t 1)])))"
  using assms by (simp add: move_file_def Let_def unique_target_accessed split: option.splits)

lemma move_file_target_free:
  assumes "s \<noteq> t" and "\<not> exists_path fs t"
  shows "move_file env s t dry verbose fs =
     (if dry then (fs, WouldMove s t, [DryRun_would_move s t])
      else (case rename env s t fs of
              Some fs' \<Rightarrow> (fs', Moved s t, if verbose then [Moved_message s t] else [])
            | None \<Rightarrow> (fs, FailedRename s t, [Error_unable_to_move s t])))"
  using assms by (simp add: move_file_def)

subsection \<open>Collisions at the target\<close>

text \<open>
  Claim C3. When the target of a file exists at another path and reading the two gives
  the same bytes, \<^verbatim>\<open>move_file\<close> returns true through its ``matches the existing
  file'' exit, and the file system afterwards is the one before but for the access times
  of the two files that were read: the listing without the access times is the same, so
  the source is still in place, no content is lost, the target is the file that was
  there and no numbered sibling of it appears. On a platform whose reads leave the
  access time as it is, the file system afterwards is the one before.
\<close>

theorem move_file_identical_skipped:
  assumes "source_file \<noteq> target_file"
    and "exists_path fs target_file"
    and "read_file fs source_file = read_file fs target_file"
  shows "move_file env source_file target_file dry_run verbose fs =
      (accessed env target_file (accessed env source_file fs), SkippedIdentical,
       if verbose then [Skipping_matches_existing source_file] else [])
    \<and> returns_true SkippedIdentical
    \<and> without_atimes (accessed env target_file (accessed env source_file fs)) = without_atimes fs
    \<and> ((\<forall>p i. atime_after_read env p i = atime i) \<longrightarrow>
         move_file env source_file target_file dry_run verbose fs =
           (fs, SkippedIdentical, if verbose then [Skipping_matches_existing source_file] else []))"
  using assms by (simp add: move_file_target_exists without_atimes_accessed accessed_keeps)

text \<open>
  A file arriving where a file with the same bytes already is: both are read, and
  nothing else changes; with \<^verbatim>\<open>noatime\<close> nothing changes at all.
\<close>

theorem move_file_identical_skipped_witness:
  "[''src'', ''in'', ''x.txt''] \<noteq> [''src'', ''out'', ''x.txt'']
   \<and> exists_path (collision_tree ''A'' ''A'') [''src'', ''out'', ''x.txt'']
   \<and> read_file (collision_tree ''A'' ''A'') [''src'', ''in'', ''x.txt'']
       = read_file (collision_tree ''A'' ''A'') [''src'', ''out'', ''x.txt'']
   \<and> move_file willing_platform [''src'', ''in'', ''x.txt''] [''src'', ''out'', ''x.txt''] False True
        (collision_tree ''A'' ''A'')
       = ([([''src''], a_directory),
           ([''src'', ''in''], a_directory),
           ([''src'', ''in'', ''x.txt''], (plain_file ''A'')\<lparr>atime := Some 5000000000\<rparr>),
           ([''src'', ''out''], a_directory),
           ([''src'', ''out'', ''x.txt''], (plain_file ''A'')\<lparr>atime := Some 5000000000\<rparr>)],
          SkippedIdentical, [Skipping_matches_existing [''src'', ''in'', ''x.txt'']])
   \<and> (\<forall>p i. atime_after_read noatime_platform p i = atime i)
   \<and> move_file noatime_platform [''src'', ''in'', ''x.txt''] [''src'', ''out'', ''x.txt''] False True
        (collision_tree ''A'' ''A'')
       = (collision_tree ''A'' ''A'', SkippedIdentical, [Skipping_matches_existing [''src'', ''in'', ''x.txt'']])"
proof -
  have a: "[''src'', ''in'', ''x.txt''] \<noteq> [''src'', ''out'', ''x.txt'']" by simp
  have b: "exists_path (collision_tree ''A'' ''A'') [''src'', ''out'', ''x.txt'']"
    by (simp add: exists_path_def status_def collision_tree_def)
  have c: "read_file (collision_tree ''A'' ''A'') [''src'', ''in'', ''x.txt'']
       = read_file (collision_tree ''A'' ''A'') [''src'', ''out'', ''x.txt'']"
    by (simp add: read_file_def status_def collision_tree_def plain_file_def)
  have r: "accessed willing_platform [''src'', ''out'', ''x.txt'']
        (accessed willing_platform [''src'', ''in'', ''x.txt''] (collision_tree ''A'' ''A'')) =
      [([''src''], a_directory),
       ([''src'', ''in''], a_directory),
       ([''src'', ''in'', ''x.txt''], (plain_file ''A'')\<lparr>atime := Some 5000000000\<rparr>),
       ([''src'', ''out''], a_directory),
       ([''src'', ''out'', ''x.txt''], (plain_file ''A'')\<lparr>atime := Some 5000000000\<rparr>)]"
    by (simp add: accessed_def collision_tree_def willing_platform_def plain_file_def a_directory_def)
  have n: "\<forall>p i. atime_after_read noatime_platform p i = atime i"
    by (simp add: noatime_platform_def)
  from move_file_identical_skipped[OF a b c, of noatime_platform False True] n
  have q: "move_file noatime_platform [''src'', ''in'', ''x.txt''] [''src'', ''out'', ''x.txt''] False True
        (collision_tree ''A'' ''A'')
       = (collision_tree ''A'' ''A'', SkippedIdentical, [Skipping_matches_existing [''src'', ''in'', ''x.txt'']])"
    unfolding if_True by blast
  from move_file_identical_skipped[OF a b c, of willing_platform False True]
  have w: "move_file willing_platform [''src'', ''in'', ''x.txt''] [''src'', ''out'', ''x.txt''] False True
        (collision_tree ''A'' ''A'')
       = ([([''src''], a_directory),
           ([''src'', ''in''], a_directory),
           ([''src'', ''in'', ''x.txt''], (plain_file ''A'')\<lparr>atime := Some 5000000000\<rparr>),
           ([''src'', ''out''], a_directory),
           ([''src'', ''out'', ''x.txt''], (plain_file ''A'')\<lparr>atime := Some 5000000000\<rparr>)],
          SkippedIdentical, [Skipping_matches_existing [''src'', ''in'', ''x.txt'']])"
    unfolding r by simp
  from a b c w n q show ?thesis by blast
qed

text \<open>
  Claim C4. When the target exists at another path and the bytes differ, the final
  target is the numbered name \<open>stem_N.ext\<close> in the same directory for the least
  \<open>N \<ge> 1\<close> whose name does not exist: every smaller number is taken, and \<open>N = 1\<close>
  when \<open>stem_1.ext\<close> is free. The numbered name keeps the extension of the target. A
  dry run reports that move, and leaves the file system as the two reads left it.
  Otherwise, for a regular source file, when the rename is not refused, the file system
  afterwards has the old file at the target still and the incoming file under the
  numbered name, each as the reads left it: with the bytes it had.
\<close>

theorem move_file_disambiguates:
  assumes "source_file \<noteq> target_file"
    and "exists_path fs target_file"
    and "read_file fs source_file \<noteq> read_file fs target_file"
  shows "\<exists>N\<ge>1.
      \<not> exists_path fs (numbered_name target_file N)
    \<and> (\<forall>k. 1 \<le> k \<and> k < N \<longrightarrow> exists_path fs (numbered_name target_file k))
    \<and> (\<not> exists_path fs (numbered_name target_file 1) \<longrightarrow> N = 1)
    \<and> numbered_name target_file N = parent_path target_file @
         [stem (filename target_file) @ ''_'' @ to_string N @ extension (filename target_file)]
    \<and> (filename target_file \<noteq> ''..'' \<longrightarrow>
         extension (filename (numbered_name target_file N)) = extension (filename target_file))
    \<and> without_atimes (accessed env target_file (accessed env source_file fs)) = without_atimes fs
    \<and> (dry_run \<longrightarrow>
         move_file env source_file target_file dry_run verbose fs =
           (accessed env target_file (accessed env source_file fs),
            WouldMove source_file (numbered_name target_file N),
            [DryRun_would_move source_file (numbered_name target_file N)]))
    \<and> (\<not> dry_run \<and> is_regular_file fs source_file \<and> is_directory fs (parent_path target_file)
          \<and> \<not> rename_fails env source_file (numbered_name target_file N) \<longrightarrow>
         (\<exists>fs'. move_file env source_file target_file dry_run verbose fs =
              (fs', Moved source_file (numbered_name target_file N),
               if verbose then [Moved_message source_file (numbered_name target_file N)] else [])
            \<and> status fs' target_file =
                status (accessed env target_file (accessed env source_file fs)) target_file
            \<and> status fs' (numbered_name target_file N) =
                status (accessed env target_file (accessed env source_file fs)) source_file
            \<and> status fs' source_file = None
            \<and> read_file fs' target_file = read_file fs target_file
            \<and> read_file fs' (numbered_name target_file N) = read_file fs source_file))
    \<and> ((\<forall>p i. atime_after_read env p i = atime i) \<longrightarrow>
         accessed env target_file (accessed env source_file fs) = fs)"
proof -
  let ?read = "accessed env target_file (accessed env source_file fs)"
  from unique_target_first_free[of 1 fs target_file] obtain N where N: "1 \<le> N"
    and u: "unique_target fs target_file 1 = numbered_name target_file N"
    and free: "\<not> exists_path fs (numbered_name target_file N)"
    and taken: "\<forall>k. 1 \<le> k \<and> k < N \<longrightarrow> exists_path fs (numbered_name target_file k)"
    by blast
  let ?final = "numbered_name target_file N"
  have first: "\<not> exists_path fs (numbered_name target_file 1) \<longrightarrow> N = 1"
    using taken N by (metis le_neq_implies_less order_refl)
  have shape: "?final = parent_path target_file @
         [stem (filename target_file) @ ''_'' @ to_string N @ extension (filename target_file)]"
    by (simp add: numbered_name_def name_path_def)
  have ext: "extension (filename ?final) = extension (filename target_file)"
    if "filename target_file \<noteq> ''..''"
    using numbered_extension[OF that, of N] by (simp add: shape filename_def)
  have frame: "without_atimes ?read = without_atimes fs"
    by (simp add: without_atimes_accessed)
  have keeps: "(\<forall>p i. atime_after_read env p i = atime i) \<longrightarrow> ?read = fs"
    by (simp add: accessed_keeps)
  have dry: "move_file env source_file target_file dry_run verbose fs =
           (?read, WouldMove source_file ?final, [DryRun_would_move source_file ?final])"
    if dry_run
    using that assms u by (simp add: move_file_target_exists)
  have real: "\<exists>fs'. move_file env source_file target_file dry_run verbose fs =
              (fs', Moved source_file ?final, if verbose then [Moved_message source_file ?final] else [])
            \<and> status fs' target_file = status ?read target_file
            \<and> status fs' ?final = status ?read source_file
            \<and> status fs' source_file = None
            \<and> read_file fs' target_file = read_file fs target_file
            \<and> read_file fs' ?final = read_file fs source_file"
    if r: "\<not> dry_run" "is_regular_file fs source_file" "is_directory fs (parent_path target_file)"
      "\<not> rename_fails env source_file ?final"
  proof -
    have "is_regular_file ?read source_file" using r(2) by (simp add: is_regular_file_accessed)
    then obtain i where i: "status ?read source_file = Some i" "kind i = regular"
      by (auto simp: is_regular_file_def split: option.splits)
    have free': "\<not> exists_path ?read ?final" using free by (simp add: exists_path_accessed)
    have ne: "source_file \<noteq> ?final" using i(1) free' by (auto simp: exists_path_def)
    have nr: "?final \<noteq> []" by (rule numbered_name_not_root)
    have sr: "source_file \<noteq> []" using i by (rule regular_not_root)
    have par: "parent_path ?final = parent_path target_file"
      by (simp add: shape parent_path_def)
    have pd: "is_directory ?read (parent_path ?final)"
      using r(3) by (simp add: par is_directory_accessed)
    have rn: "rename env source_file ?final ?read = Some (rekey i source_file ?final ?read)"
      using i ne nr r(4) pd free' by (rule rename_regular)
    have tf: "target_file \<noteq> ?final" using assms(2) free by auto
    have m: "move_file env source_file target_file dry_run verbose fs =
        (rekey i source_file ?final ?read, Moved source_file ?final,
         if verbose then [Moved_message source_file ?final] else [])"
      using assms r(1) u rn by (simp add: move_file_target_exists)
    have st: "status (rekey i source_file ?final ?read) target_file = status ?read target_file"
      "status (rekey i source_file ?final ?read) ?final = status ?read source_file"
      "status (rekey i source_file ?final ?read) source_file = None"
      using tf assms(1) ne by (simp_all add: status_rekey[OF i(2) ne nr sr])
    have rd: "read_file (rekey i source_file ?final ?read) target_file = read_file fs target_file"
      "read_file (rekey i source_file ?final ?read) ?final = read_file fs source_file"
      using st(1,2) read_file_accessed[of env target_file "accessed env source_file fs"]
        read_file_accessed[of env source_file fs]
      by (simp_all add: read_file_def)
    show ?thesis using m st rd by blast
  qed
  show ?thesis
    using N free taken first shape ext frame dry real keeps by blast
qed

text \<open>A file arriving where a different file is: it becomes \<open>x_1.txt\<close>.\<close>

theorem move_file_disambiguates_witness:
  "[''src'', ''in'', ''x.txt''] \<noteq> [''src'', ''out'', ''x.txt'']
   \<and> exists_path (collision_tree ''A'' ''B'') [''src'', ''out'', ''x.txt'']
   \<and> read_file (collision_tree ''A'' ''B'') [''src'', ''in'', ''x.txt'']
       \<noteq> read_file (collision_tree ''A'' ''B'') [''src'', ''out'', ''x.txt'']
   \<and> move_file willing_platform [''src'', ''in'', ''x.txt''] [''src'', ''out'', ''x.txt''] False True
        (collision_tree ''A'' ''B'') =
      ([([''src''], a_directory),
        ([''src'', ''in''], a_directory),
        ([''src'', ''out'', ''x_1.txt''], (plain_file ''B'')\<lparr>atime := Some 5000000000\<rparr>),
        ([''src'', ''out''], a_directory),
        ([''src'', ''out'', ''x.txt''], (plain_file ''A'')\<lparr>atime := Some 5000000000\<rparr>)],
       Moved [''src'', ''in'', ''x.txt''] [''src'', ''out'', ''x_1.txt''],
       [Moved_message [''src'', ''in'', ''x.txt''] [''src'', ''out'', ''x_1.txt'']])
   \<and> read_file (fst (move_file willing_platform [''src'', ''in'', ''x.txt''] [''src'', ''out'', ''x.txt''] False True
        (collision_tree ''A'' ''B''))) [''src'', ''out'', ''x.txt''] = ''A''
   \<and> read_file (fst (move_file willing_platform [''src'', ''in'', ''x.txt''] [''src'', ''out'', ''x.txt''] False True
        (collision_tree ''A'' ''B''))) [''src'', ''out'', ''x_1.txt''] = ''B''
   \<and> move_file willing_platform [''src'', ''in'', ''x.txt''] [''src'', ''out'', ''x.txt''] True True
        (collision_tree ''A'' ''B'') =
      ([([''src''], a_directory),
        ([''src'', ''in''], a_directory),
        ([''src'', ''in'', ''x.txt''], (plain_file ''B'')\<lparr>atime := Some 5000000000\<rparr>),
        ([''src'', ''out''], a_directory),
        ([''src'', ''out'', ''x.txt''], (plain_file ''A'')\<lparr>atime := Some 5000000000\<rparr>)],
       WouldMove [''src'', ''in'', ''x.txt''] [''src'', ''out'', ''x_1.txt''],
       [DryRun_would_move [''src'', ''in'', ''x.txt''] [''src'', ''out'', ''x_1.txt'']])"
proof -
  have a: "[''src'', ''in'', ''x.txt''] \<noteq> [''src'', ''out'', ''x.txt'']" by simp
  have b: "exists_path (collision_tree ''A'' ''B'') [''src'', ''out'', ''x.txt'']"
    by (simp add: exists_path_def status_def collision_tree_def)
  have c: "read_file (collision_tree ''A'' ''B'') [''src'', ''in'', ''x.txt'']
       \<noteq> read_file (collision_tree ''A'' ''B'') [''src'', ''out'', ''x.txt'']"
    by (simp add: read_file_def status_def collision_tree_def plain_file_def)
  have m: "move_file willing_platform [''src'', ''in'', ''x.txt''] [''src'', ''out'', ''x.txt''] False True
        (collision_tree ''A'' ''B'') =
      ([([''src''], a_directory),
        ([''src'', ''in''], a_directory),
        ([''src'', ''out'', ''x_1.txt''], (plain_file ''B'')\<lparr>atime := Some 5000000000\<rparr>),
        ([''src'', ''out''], a_directory),
        ([''src'', ''out'', ''x.txt''], (plain_file ''A'')\<lparr>atime := Some 5000000000\<rparr>)],
       Moved [''src'', ''in'', ''x.txt''] [''src'', ''out'', ''x_1.txt''],
       [Moved_message [''src'', ''in'', ''x.txt''] [''src'', ''out'', ''x_1.txt'']])"
    by code_simp
  have d: "move_file willing_platform [''src'', ''in'', ''x.txt''] [''src'', ''out'', ''x.txt''] True True
        (collision_tree ''A'' ''B'') =
      ([([''src''], a_directory),
        ([''src'', ''in''], a_directory),
        ([''src'', ''in'', ''x.txt''], (plain_file ''B'')\<lparr>atime := Some 5000000000\<rparr>),
        ([''src'', ''out''], a_directory),
        ([''src'', ''out'', ''x.txt''], (plain_file ''A'')\<lparr>atime := Some 5000000000\<rparr>)],
       WouldMove [''src'', ''in'', ''x.txt''] [''src'', ''out'', ''x_1.txt''],
       [DryRun_would_move [''src'', ''in'', ''x.txt''] [''src'', ''out'', ''x_1.txt'']])"
    by code_simp
  from move_file_disambiguates[OF a b c, of willing_platform False True] a b c
  show ?thesis unfolding m d by (simp add: read_file_def status_def plain_file_def)
qed

subsection \<open>The target directory\<close>

lemma path_of_separator: "path_of (a @ CHR ''/'' # b) = path_of a @ path_of b"
proof (induction a rule: path_of.induct)
  case 1
  show ?case by simp
next
  case (2 c cs)
  show ?case
  proof (cases "c = CHR ''/''")
    case True
    with 2 show ?thesis by simp
  next
    case False
    let ?P = "\<lambda>x. x \<noteq> CHR ''/''"
    show ?thesis
    proof (cases "CHR ''/'' \<in> set cs")
      case True
      then have t: "takeWhile ?P (cs @ CHR ''/'' # b) = takeWhile ?P cs"
        by (rule takeWhile_append1) simp
      from True have d: "dropWhile ?P (cs @ CHR ''/'' # b) = dropWhile ?P cs @ CHR ''/'' # b"
        by (rule dropWhile_append1) simp
      show ?thesis using False t d "2.IH"(2)[OF False] by simp
    next
      case no: False
      then have t: "takeWhile ?P (cs @ CHR ''/'' # b) = cs @ takeWhile ?P (CHR ''/'' # b)"
        by (intro takeWhile_append2) auto
      from no have d: "dropWhile ?P (cs @ CHR ''/'' # b) = dropWhile ?P (CHR ''/'' # b)"
        by (intro dropWhile_append2) auto
      from no have e1: "takeWhile ?P cs = cs" and e2: "dropWhile ?P cs = []"
        by (auto simp: takeWhile_eq_all_conv)
      have "path_of ((c # cs) @ CHR ''/'' # b) =
          (c # takeWhile ?P (cs @ CHR ''/'' # b)) # path_of (dropWhile ?P (cs @ CHR ''/'' # b))"
        using False by simp
      also have "\<dots> = (c # cs) # path_of b" unfolding t d by simp
      finally have l: "path_of ((c # cs) @ CHR ''/'' # b) = (c # cs) # path_of b" .
      have "path_of (c # cs) = (c # takeWhile ?P cs) # path_of (dropWhile ?P cs)"
        using False by simp
      also have "\<dots> = [c # cs]" unfolding e1 e2 by simp
      finally show ?thesis using l by simp
    qed
  qed
qed

lemma path_of_name: "s \<noteq> [] \<Longrightarrow> CHR ''/'' \<notin> set s \<Longrightarrow> path_of s = [s]"
proof (cases s)
  case Nil
  assume "s \<noteq> []" with Nil show ?thesis by simp
next
  case (Cons c cs)
  assume "CHR ''/'' \<notin> set s"
  with Cons have c: "c \<noteq> CHR ''/''"
    and t: "takeWhile (\<lambda>x. x \<noteq> CHR ''/'') cs = cs"
    and d: "dropWhile (\<lambda>x. x \<noteq> CHR ''/'') cs = []"
    by (auto simp: takeWhile_eq_all_conv)
  have "path_of (c # cs) =
      (c # takeWhile (\<lambda>x. x \<noteq> CHR ''/'') cs) # path_of (dropWhile (\<lambda>x. x \<noteq> CHR ''/'') cs)"
    using c by simp
  also have "\<dots> = [c # cs]" unfolding t d by simp
  finally show ?thesis using Cons by simp
qed

lemma no_separator_in_number: "CHR ''/'' \<notin> set (to_string n)"
  using to_string_chars[of "CHR ''/''" n] by auto

lemma int_to_string_name: "int_to_string i \<noteq> [] \<and> CHR ''/'' \<notin> set (int_to_string i)"
  by (simp add: int_to_string_def to_string_nonempty no_separator_in_number)

lemma two_digits_name: "two_digits n \<noteq> [] \<and> CHR ''/'' \<notin> set (two_digits n)"
  by (simp add: two_digits_def to_string_nonempty no_separator_in_number)

lemma categorize_size_name: "categorize_size sz th \<noteq> [] \<and> CHR ''/'' \<notin> set (categorize_size sz th)"
  by (simp add: categorize_size_def)

lemma path_of_date_and_size:
  "path_of (put_time_Ymd t @ ''/'' @ categorize_size sz th) =
     [int_to_string (tm_year t + 1900), two_digits (tm_mon t + 1), two_digits (tm_mday t),
      categorize_size sz th]"
proof -
  have "path_of (put_time_Ymd t @ ''/'' @ categorize_size sz th) =
     path_of (int_to_string (tm_year t + 1900)) @ path_of (two_digits (tm_mon t + 1))
       @ path_of (two_digits (tm_mday t)) @ path_of (categorize_size sz th)"
    using path_of_separator[of "int_to_string (tm_year t + 1900) @ ''/'' @ two_digits (tm_mon t + 1) @ ''/'' @ two_digits (tm_mday t)" "categorize_size sz th"]
      path_of_separator[of "int_to_string (tm_year t + 1900) @ ''/'' @ two_digits (tm_mon t + 1)" "two_digits (tm_mday t)"]
      path_of_separator[of "int_to_string (tm_year t + 1900)" "two_digits (tm_mon t + 1)"]
    by (simp add: put_time_Ymd_def)
  then show ?thesis
    using int_to_string_name two_digits_name categorize_size_name by (simp add: path_of_name)
qed

lemma extension_starts_with_dot:
  "has_extension name \<Longrightarrow> extension name = CHR ''.'' # drop 1 (extension name)"
proof -
  assume h: "has_extension name"
  then obtain pos where p: "find_extension name = Some pos"
    by (auto simp: has_extension_def extension_def split: option.splits)
  then have r: "rfind_dot name = Some pos"
    by (auto simp: find_extension_def split: if_splits option.splits)
  then have "CHR ''.'' \<in> set name" by (auto simp: rfind_dot_def split: if_splits)
  then obtain a b where s: "name = a @ CHR ''.'' # b" and b: "CHR ''.'' \<notin> set b"
    using split_list_last by fastforce
  with r have "pos = length a" using rfind_dot_last[OF b, of a] by simp
  with p s show ?thesis by (simp add: extension_def)
qed

text \<open>
  Claim C5, as the code has it. For a file whose extension is more than a lone dot, the
  target directory is the source directory followed by exactly five components, in this
  order: the extension segment, the year, the month and the day of the file's time in
  the local calendar, and the size category (of size 0 when the size query fails). The
  extension segment is the extension without its leading dot, with its letters as they
  are in the file name, or \<open>no_extension\<close> when the name has no extension.
\<close>

theorem target_directory_layout:
  assumes "extension (filename file_path) \<noteq> ''.''"
  shows "target_directory env fs src_directory attr thresholds file_path =
      src_directory @
        [file_extension file_path,
         int_to_string (tm_year (localtime_r env (to_time_t (fst (get_file_time env fs file_path attr)))) + 1900),
         two_digits (tm_mon (localtime_r env (to_time_t (fst (get_file_time env fs file_path attr)))) + 1),
         two_digits (tm_mday (localtime_r env (to_time_t (fst (get_file_time env fs file_path attr))))),
         categorize_size (case file_size fs file_path of None \<Rightarrow> 0 | Some n \<Rightarrow> n) thresholds]
    \<and> (if has_extension (filename file_path)
        then extension (filename file_path) = CHR ''.'' # file_extension file_path
        else file_extension file_path = ''no_extension'')"
proof -
  have seg: "file_extension file_path \<noteq> []"
  proof (cases "has_extension (filename file_path)")
    case True
    from extension_starts_with_dot[OF this] assms show ?thesis
      by (auto simp: file_extension_def True)
  next
    case False
    then show ?thesis by (simp add: file_extension_def)
  qed
  have dot: "if has_extension (filename file_path)
        then extension (filename file_path) = CHR ''.'' # file_extension file_path
        else file_extension file_path = ''no_extension''"
    using extension_starts_with_dot[of "filename file_path"] by (simp add: file_extension_def)
  have "fst (get_metadata_based_dir env fs file_path attr thresholds) =
      put_time_Ymd (localtime_r env (to_time_t (fst (get_file_time env fs file_path attr)))) @ ''/'' @
      categorize_size (case file_size fs file_path of None \<Rightarrow> 0 | Some n \<Rightarrow> n) thresholds"
    by (simp add: get_metadata_based_dir_def split: prod.splits option.splits)
  then have "path_of (fst (get_metadata_based_dir env fs file_path attr thresholds)) =
      path_of (put_time_Ymd (localtime_r env (to_time_t (fst (get_file_time env fs file_path attr)))) @ ''/'' @
      categorize_size (case file_size fs file_path of None \<Rightarrow> 0 | Some n \<Rightarrow> n) thresholds)"
    by (rule arg_cong)
  also note path_of_date_and_size
  finally have "target_directory env fs src_directory attr thresholds file_path =
      src_directory @
        [file_extension file_path,
         int_to_string (tm_year (localtime_r env (to_time_t (fst (get_file_time env fs file_path attr)))) + 1900),
         two_digits (tm_mon (localtime_r env (to_time_t (fst (get_file_time env fs file_path attr)))) + 1),
         two_digits (tm_mday (localtime_r env (to_time_t (fst (get_file_time env fs file_path attr))))),
         categorize_size (case file_size fs file_path of None \<Rightarrow> 0 | Some n \<Rightarrow> n) thresholds]"
    using seg by (simp add: target_directory_def name_path_def)
  then show ?thesis using dot by simp
qed

text \<open>The file \<open>Report.TXT\<close> goes below \<open>TXT\<close>.\<close>

theorem target_directory_layout_witness:
  "extension (filename [''src'', ''Report.TXT'']) \<noteq> ''.''
   \<and> target_directory willing_platform mixed_case_tree [''src''] Modification default_thresholds
        [''src'', ''Report.TXT''] = [''src'', ''TXT'', ''2024'', ''01'', ''02'', ''small'']
   \<and> extension (filename [''src'', ''Report.TXT'']) = CHR ''.'' # file_extension [''src'', ''Report.TXT'']"
proof -
  have a: "extension (filename [''src'', ''Report.TXT'']) \<noteq> ''.''" by code_simp
  have t: "target_directory willing_platform mixed_case_tree [''src''] Modification default_thresholds
        [''src'', ''Report.TXT''] = [''src'', ''TXT'', ''2024'', ''01'', ''02'', ''small'']" by code_simp
  have h: "has_extension (filename [''src'', ''Report.TXT''])" by code_simp
  from target_directory_layout[OF a, of willing_platform mixed_case_tree "[''src'']" Modification default_thresholds]
    a t h show ?thesis by simp
qed

text \<open>
  The segment is not lowercased: for \<open>Report.TXT\<close> the specification's segment is
  \<open>txt\<close>, and the directory built is below \<open>TXT\<close>.
\<close>

theorem extension_segment_not_lowercased_counterexample:
  "target_directory willing_platform mixed_case_tree [''src''] Modification default_thresholds
        [''src'', ''Report.TXT''] = [''src'', ''TXT'', ''2024'', ''01'', ''02'', ''small'']
   \<and> spec_extension_segment [''src'', ''Report.TXT''] = ''txt''
   \<and> target_directory willing_platform mixed_case_tree [''src''] Modification default_thresholds
        [''src'', ''Report.TXT''] \<noteq>
       [''src'', spec_extension_segment [''src'', ''Report.TXT''], ''2024'', ''01'', ''02'', ''small'']"
proof -
  have a: "target_directory willing_platform mixed_case_tree [''src''] Modification default_thresholds
        [''src'', ''Report.TXT''] = [''src'', ''TXT'', ''2024'', ''01'', ''02'', ''small'']"
    by code_simp
  have b: "spec_extension_segment [''src'', ''Report.TXT''] = ''txt''"
    by code_simp
  show ?thesis unfolding a b by simp
qed

subsection \<open>A source path that is not a directory\<close>




subsection \<open>The loop body, branch by branch\<close>

lemma move_file_plain:
  assumes "status fs s = Some i" and "kind i = regular" and "\<not> exists_path fs t" and "t \<noteq> []"
    and "is_directory fs (parent_path t)" and "\<not> rename_fails env s t"
  shows "move_file env s t False verbose fs =
     (rekey i s t fs, Moved s t, if verbose then [Moved_message s t] else [])"
proof -
  have ne: "s \<noteq> t" using assms(1,3) by (auto simp: exists_path_def)
  from rename_regular[OF assms(1,2) ne assms(4,6,5,3)] ne assms(3)
  show ?thesis by (simp add: move_file_target_free)
qed

lemma process_file_missing:
  "\<not> exists_path fs f \<Longrightarrow>
   process_file env src attr th dry verbose fs f =
     (fs, SkippedMissing, if verbose then [Skipping_does_not_exist f] else [])"
  by (simp add: process_file_def)

lemma process_file_directory_exists:
  assumes "exists_path fs f" and "exists_path fs (target_directory env fs src attr th f)"
  shows "process_file env src attr th dry verbose fs f =
     (case move_file env f (target_file_path env fs src attr th f) dry verbose fs of
        (fs', out, ev') \<Rightarrow> (fs', out, snd (get_metadata_based_dir env fs f attr th) @ ev'))"
  using assms by (simp add: process_file_def Let_def)

lemma process_file_dry_run:
  assumes "exists_path fs f" and "\<not> exists_path fs (target_directory env fs src attr th f)"
  shows "process_file env src attr th True verbose fs f =
     (case move_file env f (target_file_path env fs src attr th f) True verbose fs of
        (fs', out, ev') \<Rightarrow>
          (fs', out, snd (get_metadata_based_dir env fs f attr th) @
             (if verbose then [DryRun_would_create_directory (target_directory env fs src attr th f)] else [])
             @ ev'))"
  using assms by (simp add: process_file_def Let_def)

lemma process_file_directory_fails:
  assumes "exists_path fs f" and "\<not> exists_path fs (target_directory env fs src attr th f)"
    and "create_directories env (target_directory env fs src attr th f) fs = (fs1, False)"
  shows "process_file env src attr th False verbose fs f =
     (fs1, FailedCreateDirectory (target_directory env fs src attr th f),
      snd (get_metadata_based_dir env fs f attr th) @
        [Error_unable_to_create_directory (target_directory env fs src attr th f)])"
  using assms by (simp add: process_file_def Let_def)

lemma process_file_directory_created:
  assumes "exists_path fs f" and "\<not> exists_path fs (target_directory env fs src attr th f)"
    and "create_directories env (target_directory env fs src attr th f) fs = (fs1, True)"
  shows "process_file env src attr th False verbose fs f =
     (case move_file env f (target_file_path env fs src attr th f) False verbose fs1 of
        (fs', out, ev') \<Rightarrow>
          (fs', out, snd (get_metadata_based_dir env fs f attr th) @
             (if verbose then [Created_directory (target_directory env fs src attr th f)] else [])
             @ ev'))"
  using assms by (simp add: process_file_def Let_def)

lemma target_file_path_parent:
  assumes "f \<noteq> []"
  shows "target_file_path env fs src attr th f = target_directory env fs src attr th f @ [filename f]"
    and "parent_path (target_file_path env fs src attr th f) = target_directory env fs src attr th f"
    and "target_file_path env fs src attr th f \<noteq> []"
    and "length (target_directory env fs src attr th f) < length (target_file_path env fs src attr th f)"
  using assms by (simp_all add: target_file_path_def parent_path_def)

lemma get_metadata_based_dir_eq:
  "get_metadata_based_dir env fs f attr th =
     (put_time_Ymd (localtime_r env (to_time_t (fst (get_file_time env fs f attr)))) @ ''/'' @
        categorize_size (case file_size fs f of None \<Rightarrow> 0 | Some n \<Rightarrow> n) th,
      snd (get_file_time env fs f attr) @
        (case file_size fs f of None \<Rightarrow> [Error_file_size f] | Some n \<Rightarrow> []))"
  by (simp add: get_metadata_based_dir_def split: prod.splits option.splits)

subsection \<open>A file whose size cannot be read\<close>

text \<open>
  Claim C10. When the size query of a file fails and the small threshold is positive,
  \<^verbatim>\<open>get_metadata_based_dir\<close> reports the error and goes on with size 0: the directory
  it returns ends in \<open>small\<close>, and so does the target directory. The loop does not
  leave the file out: in a run that is not a dry run, for a regular file whose target
  does not exist, whose target directory is there or can be created, and whose rename
  is not refused, the outcome is a move into that \<open>small\<close> directory, after which the
  file is at the target and no longer at its old path.
\<close>

theorem failed_size_query_counts_as_small:
  assumes "file_size fs file_path = None" and "0 < small thresholds"
  shows "get_metadata_based_dir env fs file_path attr thresholds =
      (put_time_Ymd (localtime_r env (to_time_t (fst (get_file_time env fs file_path attr)))) @ ''/small'',
       snd (get_file_time env fs file_path attr) @ [Error_file_size file_path])
    \<and> last (target_directory env fs src_directory attr thresholds file_path) = ''small''
    \<and> (\<not> dry_run \<and> is_regular_file fs file_path
        \<and> \<not> exists_path fs (target_file_path env fs src_directory attr thresholds file_path)
        \<and> (is_directory fs (target_directory env fs src_directory attr thresholds file_path)
           \<or> snd (create_directories env (target_directory env fs src_directory attr thresholds file_path) fs))
        \<and> \<not> rename_fails env file_path (target_file_path env fs src_directory attr thresholds file_path)
       \<longrightarrow> (\<exists>fs' ev.
             process_file env src_directory attr thresholds dry_run verbose fs file_path =
               (fs', Moved file_path (target_file_path env fs src_directory attr thresholds file_path), ev)
           \<and> Error_file_size file_path \<in> set ev
           \<and> target_file_path env fs src_directory attr thresholds file_path =
               target_directory env fs src_directory attr thresholds file_path @ [filename file_path]
           \<and> status fs' (target_file_path env fs src_directory attr thresholds file_path) = status fs file_path
           \<and> status fs' file_path = None))"
proof -
  let ?td = "target_directory env fs src_directory attr thresholds file_path"
  let ?tf = "target_file_path env fs src_directory attr thresholds file_path"
  let ?date = "put_time_Ymd (localtime_r env (to_time_t (fst (get_file_time env fs file_path attr))))"
  have cat: "categorize_size 0 thresholds = ''small''"
    using assms(2) by (simp add: categorize_size_def)
  have g: "get_metadata_based_dir env fs file_path attr thresholds =
      (?date @ ''/small'', snd (get_file_time env fs file_path attr) @ [Error_file_size file_path])"
    using assms(1) cat by (simp add: get_metadata_based_dir_eq)
  have "path_of (?date @ ''/'' @ categorize_size 0 thresholds) =
     [int_to_string (tm_year (localtime_r env (to_time_t (fst (get_file_time env fs file_path attr)))) + 1900),
      two_digits (tm_mon (localtime_r env (to_time_t (fst (get_file_time env fs file_path attr)))) + 1),
      two_digits (tm_mday (localtime_r env (to_time_t (fst (get_file_time env fs file_path attr))))),
      categorize_size 0 thresholds]"
    by (rule path_of_date_and_size)
  then have l: "last ?td = ''small''"
    using g cat by (simp add: target_directory_def)
  have reloc: "\<exists>fs' ev.
             process_file env src_directory attr thresholds dry_run verbose fs file_path = (fs', Moved file_path ?tf, ev)
           \<and> Error_file_size file_path \<in> set ev
           \<and> ?tf = ?td @ [filename file_path]
           \<and> status fs' ?tf = status fs file_path
           \<and> status fs' file_path = None"
    if h: "\<not> dry_run" "is_regular_file fs file_path" "\<not> exists_path fs ?tf"
      "is_directory fs ?td \<or> snd (create_directories env ?td fs)"
      "\<not> rename_fails env file_path ?tf"
  proof -
    from h(2) obtain i where i: "status fs file_path = Some i" "kind i = regular"
      by (auto simp: is_regular_file_def split: option.splits)
    have ex: "exists_path fs file_path" using i by (simp add: exists_path_def)
    have nr: "file_path \<noteq> []" using i by (rule regular_not_root)
    note tp = target_file_path_parent[OF nr, of env fs src_directory attr thresholds]
    have ne: "file_path \<noteq> ?tf" using ex h(3) by auto
    have dry: "dry_run = False" using h(1) by simp
    have ev: "Error_file_size file_path \<in> set (snd (get_metadata_based_dir env fs file_path attr thresholds))"
      using g by simp
    show ?thesis
    proof (cases "exists_path fs ?td")
      case True
      with h(4) have d: "is_directory fs ?td"
        by (auto simp: create_directories_def split: prod.splits)
      have m: "move_file env file_path ?tf False verbose fs =
          (rekey i file_path ?tf fs, Moved file_path ?tf, if verbose then [Moved_message file_path ?tf] else [])"
        using i h(3) tp(2,3) d h(5) by (intro move_file_plain) simp_all
      have pf: "process_file env src_directory attr thresholds dry_run verbose fs file_path =
          (rekey i file_path ?tf fs, Moved file_path ?tf,
           snd (get_metadata_based_dir env fs file_path attr thresholds) @
             (if verbose then [Moved_message file_path ?tf] else []))"
        using process_file_directory_exists[OF ex True, of False verbose] m by (simp add: dry)
      have st: "status (rekey i file_path ?tf fs) ?tf = status fs file_path"
        "status (rekey i file_path ?tf fs) file_path = None"
        using ne by (simp_all add: status_rekey[OF i(2) ne tp(3) nr])
      have ev': "Error_file_size file_path \<in> set (snd (get_metadata_based_dir env fs file_path attr thresholds) @
             (if verbose then [Moved_message file_path ?tf] else []))"
        using ev by simp
      from pf ev' tp(1) st show ?thesis by blast
    next
      case False
      with h(4) have "snd (create_directories env ?td fs)" by (auto simp: is_directory_def exists_path_def split: option.splits)
      then obtain fs1 where c: "create_directories env ?td fs = (fs1, True)"
        by (cases "create_directories env ?td fs") auto
      note cf = create_directories_facts[OF c]
      have i1: "status fs1 file_path = Some i" using cf(1)[OF ex] i by simp
      have t1: "\<not> exists_path fs1 ?tf" using cf(2)[of ?tf] tp(4) h(3) by (simp add: exists_path_def)
      have d1: "is_directory fs1 ?td" using cf(3) by simp
      have m: "move_file env file_path ?tf False verbose fs1 =
          (rekey i file_path ?tf fs1, Moved file_path ?tf, if verbose then [Moved_message file_path ?tf] else [])"
        using i1 i(2) t1 tp(2,3) d1 h(5) by (intro move_file_plain) simp_all
      have pf: "process_file env src_directory attr thresholds dry_run verbose fs file_path =
          (rekey i file_path ?tf fs1, Moved file_path ?tf,
           snd (get_metadata_based_dir env fs file_path attr thresholds) @
             (if verbose then [Created_directory ?td] else []) @
             (if verbose then [Moved_message file_path ?tf] else []))"
        using process_file_directory_created[OF ex False c, of verbose] m by (simp add: dry)
      have st: "status (rekey i file_path ?tf fs1) ?tf = status fs file_path"
        "status (rekey i file_path ?tf fs1) file_path = None"
        using ne i1 i(1) by (simp_all add: status_rekey[OF i(2) ne tp(3) nr])
      have ev': "Error_file_size file_path \<in> set (snd (get_metadata_based_dir env fs file_path attr thresholds) @
             (if verbose then [Created_directory ?td] else []) @
             (if verbose then [Moved_message file_path ?tf] else []))"
        using ev by simp
      from pf ev' tp(1) st show ?thesis by blast
    qed
  qed
  show ?thesis using g l reloc by blast
qed


text \<open>A file of ten bytes whose size query fails is moved to \<open>bin/2024/01/02/small\<close>.\<close>

theorem failed_size_query_counts_as_small_witness:
  "file_size unsized_tree [''src'', ''f.bin''] = None
   \<and> 0 < small default_thresholds
   \<and> fst (get_metadata_based_dir willing_platform unsized_tree [''src'', ''f.bin''] Modification
        default_thresholds) = ''2024/01/02/small''
   \<and> fst (snd (process_file willing_platform [''src''] Modification default_thresholds False False
        unsized_tree [''src'', ''f.bin''])) =
       Moved [''src'', ''f.bin''] [''src'', ''bin'', ''2024'', ''01'', ''02'', ''small'', ''f.bin'']
   \<and> snd (snd (process_file willing_platform [''src''] Modification default_thresholds False False
        unsized_tree [''src'', ''f.bin''])) = [Error_file_size [''src'', ''f.bin'']]"
proof -
  have a: "file_size unsized_tree [''src'', ''f.bin''] = None" by code_simp
  have b: "0 < small default_thresholds" by (simp add: default_thresholds_def)
  have c: "fst (get_metadata_based_dir willing_platform unsized_tree [''src'', ''f.bin''] Modification
        default_thresholds) = ''2024/01/02/small''" by code_simp
  have d: "fst (snd (process_file willing_platform [''src''] Modification default_thresholds False False
        unsized_tree [''src'', ''f.bin''])) =
       Moved [''src'', ''f.bin''] [''src'', ''bin'', ''2024'', ''01'', ''02'', ''small'', ''f.bin'']"
    by code_simp
  have e: "snd (snd (process_file willing_platform [''src''] Modification default_thresholds False False
        unsized_tree [''src'', ''f.bin''])) = [Error_file_size [''src'', ''f.bin'']]"
    by code_simp
  from failed_size_query_counts_as_small[OF a b, of willing_platform Modification "[''src'']" False False]
    a b c d e show ?thesis by simp
qed

subsection \<open>What the program can observe\<close>

lemma observed_fields:
  assumes "observed attr j = observed attr i"
  shows "kind j = kind i" and "bytes j = bytes i" and "btime j = btime i" and "mtime j = mtime i"
    and "size_known j = size_known i" and "attr = Access \<Longrightarrow> atime j = atime i"
proof -
  have "kind (observed attr j) = kind (observed attr i)"
    "bytes (observed attr j) = bytes (observed attr i)"
    "btime (observed attr j) = btime (observed attr i)"
    "mtime (observed attr j) = mtime (observed attr i)"
    "size_known (observed attr j) = size_known (observed attr i)"
    "atime (observed attr j) = atime (observed attr i)"
    using assms by simp_all
  then show "kind j = kind i" and "bytes j = bytes i" and "btime j = btime i" and "mtime j = mtime i"
    and "size_known j = size_known i" and "attr = Access \<Longrightarrow> atime j = atime i"
    by (simp_all add: observed_def split: if_splits)
qed

lemma observed_touched:
  "attr \<noteq> Access \<or> x = atime i \<Longrightarrow> observed attr (i\<lparr>atime := x\<rparr>) = observed attr i"
  by (auto simp: observed_def)

lemma seen_cases:
  assumes "seen attr fs1 q = seen attr fs p"
  obtains "status fs1 q = None" and "status fs p = None"
  | j i where "status fs1 q = Some j" and "status fs p = Some i" and "observed attr j = observed attr i"
  using assms by (cases "status fs1 q"; cases "status fs p") (auto simp: seen_def)

lemma seen_exists: "exists_path fs p = (seen attr fs p \<noteq> None)"
  by (simp add: exists_path_def seen_def)

lemma seen_is_regular_file:
  "is_regular_file fs p = (case seen attr fs p of None \<Rightarrow> False | Some i \<Rightarrow> kind i = regular)"
  by (cases "status fs p") (auto simp: is_regular_file_def seen_def observed_def)

lemma seen_is_directory:
  "is_directory fs p = (case seen attr fs p of None \<Rightarrow> False | Some i \<Rightarrow> kind i = directory)"
  by (cases "status fs p") (auto simp: is_directory_def seen_def observed_def)

lemma exists_path_seen: "seen attr fs1 q = seen attr fs p \<Longrightarrow> exists_path fs1 q = exists_path fs p"
  by (simp add: seen_exists[of _ _ attr])

lemma is_regular_file_seen:
  "seen attr fs1 q = seen attr fs p \<Longrightarrow> is_regular_file fs1 q = is_regular_file fs p"
  by (simp add: seen_is_regular_file[of _ _ attr])

lemma is_directory_seen:
  "seen attr fs1 q = seen attr fs p \<Longrightarrow> is_directory fs1 q = is_directory fs p"
  by (simp add: seen_is_directory[of _ _ attr])

lemma read_file_seen:
  assumes "seen attr fs1 q = seen attr fs p"
  shows "read_file fs1 q = read_file fs p"
  using assms
proof (cases rule: seen_cases)
  case 1
  then show ?thesis by (simp add: read_file_def)
next
  case (2 j i)
  with observed_fields(1,2)[OF 2(3)] show ?thesis by (simp add: read_file_def)
qed

lemma file_size_seen:
  assumes "seen attr fs1 q = seen attr fs p"
  shows "file_size fs1 q = file_size fs p"
  using assms
proof (cases rule: seen_cases)
  case 1
  then show ?thesis by (simp add: file_size_def)
next
  case (2 j i)
  with observed_fields(1,2,5)[OF 2(3)] show ?thesis by (simp add: file_size_def)
qed

lemma last_write_time_seen:
  assumes "seen attr fs1 q = seen attr fs p"
  shows "last_write_time fs1 q = last_write_time fs p"
  using assms
proof (cases rule: seen_cases)
  case 1
  then show ?thesis by (simp add: last_write_time_def)
next
  case (2 j i)
  with observed_fields(4)[OF 2(3)] show ?thesis by (simp add: last_write_time_def)
qed

lemma get_creation_time_seen:
  assumes "seen attr fs1 q = seen attr fs p"
  shows "get_creation_time fs1 q = get_creation_time fs p"
  using assms
proof (cases rule: seen_cases)
  case 1
  then show ?thesis by (simp add: get_creation_time_def)
next
  case (2 j i)
  with observed_fields(3)[OF 2(3)] show ?thesis by (simp add: get_creation_time_def)
qed

lemma stat_atime_seen:
  assumes "seen Access fs1 q = seen Access fs p"
  shows "stat_atime fs1 q = stat_atime fs p"
  using assms
proof (cases rule: seen_cases)
  case 1
  then show ?thesis by (simp add: stat_atime_def)
next
  case (2 j i)
  with observed_fields(6)[OF 2(3)] show ?thesis by (simp add: stat_atime_def)
qed

lemma modification_case_seen:
  "seen attr fs1 p = seen attr fs p \<Longrightarrow> modification_case env fs1 p = modification_case env fs p"
  by (simp add: modification_case_def last_write_time_seen[of attr fs1 p fs p])

lemma get_file_time_seen:
  assumes "seen attr fs1 p = seen attr fs p"
  shows "get_file_time env fs1 p attr = get_file_time env fs p attr"
proof -
  have m: "modification_case env fs1 p = modification_case env fs p"
    using assms by (rule modification_case_seen)
  have c: "get_creation_time fs1 p = get_creation_time fs p"
    using assms by (rule get_creation_time_seen)
  show ?thesis
  proof (cases "attr = Access")
    case True
    with assms have s: "stat_atime fs1 p = stat_atime fs p" by (intro stat_atime_seen) simp
    show ?thesis unfolding get_file_time_def m c s ..
  next
    case False
    then show ?thesis unfolding get_file_time_def m c by (cases attr) simp_all
  qed
qed

lemma filing_date_seen:
  "seen attr fs1 p = seen attr fs p \<Longrightarrow> filing_date env fs1 p attr = filing_date env fs p attr"
  by (simp add: filing_date_def get_file_time_seen[of attr fs1 p fs])

lemma get_metadata_based_dir_seen:
  "seen attr fs1 p = seen attr fs p \<Longrightarrow>
   get_metadata_based_dir env fs1 p attr th = get_metadata_based_dir env fs p attr th"
  by (simp add: get_metadata_based_dir_eq get_file_time_seen[of attr fs1 p fs] file_size_seen[of attr fs1 p fs p])

lemma target_directory_seen:
  "seen attr fs1 p = seen attr fs p \<Longrightarrow>
   target_directory env fs1 src attr th p = target_directory env fs src attr th p"
  by (simp add: target_directory_def get_metadata_based_dir_seen[of attr fs1 p fs])

lemma target_file_path_seen:
  "seen attr fs1 p = seen attr fs p \<Longrightarrow>
   target_file_path env fs1 src attr th p = target_file_path env fs src attr th p"
  by (simp add: target_file_path_def target_directory_seen[of attr fs1 p fs])

lemma target_directory_filed:
  "target_directory env fs src attr th p =
     src @ name_path (file_extension p) @
       path_of (filing_date env fs p attr @ ''/'' @
         categorize_size (case file_size fs p of None \<Rightarrow> 0 | Some n \<Rightarrow> n) th)"
  by (simp add: target_directory_def get_metadata_based_dir_eq filing_date_def)

lemma target_directory_same_filing:
  assumes "file_extension q = file_extension p"
    and "filing_date env' fs' q attr = filing_date env fs p attr"
    and "file_size fs' q = file_size fs p"
  shows "target_directory env' fs' src attr th q = target_directory env fs src attr th p"
  by (simp add: target_directory_filed assms)

lemma seen_accessed:
  assumes "attr = Access \<longrightarrow> (\<forall>q i. atime_after_read env q i = atime i)"
  shows "seen attr (accessed env p fs) q = seen attr fs q"
proof (cases "status fs q")
  case None
  then show ?thesis by (simp add: seen_def status_accessed)
next
  case (Some i)
  have "observed attr (i\<lparr>atime := atime_after_read env p i\<rparr>) = observed attr i"
    using assms by (intro observed_touched) auto
  with Some show ?thesis by (simp add: seen_def status_accessed)
qed



subsection \<open>Failures stay with their file\<close>



lemma move_file_same:
  "move_file env s s dry verbose fs =
     (fs, SkippedAlreadyCorrect, if verbose then [Skipping_correct_location s] else [])"
  by (simp add: move_file_def)










subsection \<open>Dry runs\<close>

lemma move_file_dry_result:
  "fst (move_file env s t True verbose fs) = fs
   \<or> fst (move_file env s t True verbose fs) = accessed env t (accessed env s fs)"
proof (cases "s = t")
  case True
  then show ?thesis by (simp add: move_file_same)
next
  case False
  then show ?thesis
    by (cases "exists_path fs t") (simp_all add: move_file_target_exists move_file_target_free)
qed

lemma move_file_dry_or_not:
  "fst (snd (move_file env s t False verbose fs)) = performed (fst (snd (move_file env s t True verbose' fs)))
   \<or> (\<exists>b. fst (snd (move_file env s t True verbose' fs)) = WouldMove s b
          \<and> fst (snd (move_file env s t False verbose fs)) = FailedRename s b)"
proof (cases "s = t")
  case True
  then show ?thesis by (simp add: move_file_same)
next
  case False
  then show ?thesis
    by (cases "exists_path fs t")
       (simp_all add: move_file_target_exists move_file_target_free split: option.splits)
qed

lemma move_file_dry_same_decision:
  assumes "exists_path fs1 t = exists_path fs t"
    and "read_file fs1 s = read_file fs s" and "read_file fs1 t = read_file fs t"
    and "\<And>k. exists_path fs1 (numbered_name t k) = exists_path fs (numbered_name t k)"
  shows "snd (move_file env s t True verbose fs1) = snd (move_file env s t True verbose fs)"
proof (cases "s = t")
  case True
  then show ?thesis by (simp add: move_file_same)
next
  case False
  note u = unique_target_cong[of fs1 t fs 1, OF assms(4)]
  show ?thesis
  proof (cases "exists_path fs t")
    case True
    with assms(1) have "exists_path fs1 t" by simp
    from move_file_target_exists[OF False this] move_file_target_exists[OF False True]
    show ?thesis using assms(2,3) u by simp
  next
    case no: False
    with assms(1) have "\<not> exists_path fs1 t" by simp
    from move_file_target_free[OF False this] move_file_target_free[OF False no]
    show ?thesis by simp
  qed
qed

lemma numbered_name_length: "length (numbered_name t k) = Suc (length (parent_path t))"
  by (simp add: numbered_name_def name_path_def)

lemma read_file_status: "status fs1 p = status fs p \<Longrightarrow> read_file fs1 p = read_file fs p"
  by (simp add: read_file_def)

lemma process_file_dry_or_not:
  assumes "is_regular_file fs f"
  shows "fst (snd (process_file env src attr th False verbose fs f))
        = performed (fst (snd (process_file env src attr th True verbose fs f)))
      \<or> fst (snd (process_file env src attr th False verbose fs f))
        = FailedCreateDirectory (target_directory env fs src attr th f)
      \<or> (\<exists>t. fst (snd (process_file env src attr th True verbose fs f)) = WouldMove f t
             \<and> fst (snd (process_file env src attr th False verbose fs f)) = FailedRename f t)"
proof -
  let ?td = "target_directory env fs src attr th f"
  let ?tf = "target_file_path env fs src attr th f"
  from assms obtain i where i: "status fs f = Some i" "kind i = regular"
    by (auto simp: is_regular_file_def split: option.splits)
  have ex: "exists_path fs f" using i by (simp add: exists_path_def)
  have nr: "f \<noteq> []" using i by (rule regular_not_root)
  note tp = target_file_path_parent[OF nr, of env fs src attr th]
  show ?thesis
  proof (cases "exists_path fs ?td")
    case True
    obtain a1 o1 e1 where r: "move_file env f ?tf False verbose fs = (a1, o1, e1)"
      by (cases "move_file env f ?tf False verbose fs") auto
    obtain a2 o2 e2 where d: "move_file env f ?tf True verbose fs = (a2, o2, e2)"
      by (cases "move_file env f ?tf True verbose fs") auto
    from move_file_dry_or_not[of env f ?tf verbose fs verbose] r d
    have rel: "o1 = performed o2 \<or> (\<exists>b. o2 = WouldMove f b \<and> o1 = FailedRename f b)"
      by simp
    have pr: "fst (snd (process_file env src attr th False verbose fs f)) = o1"
      using r by (simp add: process_file_directory_exists[OF ex True])
    have pd: "fst (snd (process_file env src attr th True verbose fs f)) = o2"
      using d by (simp add: process_file_directory_exists[OF ex True])
    show ?thesis unfolding pr pd using rel by blast
  next
    case False
    obtain fs1 ok where c: "create_directories env ?td fs = (fs1, ok)"
      by (cases "create_directories env ?td fs") auto
    show ?thesis
    proof (cases ok)
      case False
      with c show ?thesis
        by (simp add: process_file_directory_fails[OF ex \<open>\<not> exists_path fs ?td\<close>])
    next
      case True
      note cf = create_directories_facts[OF c]
      have s1: "status fs1 f = status fs f" using cf(1)[OF ex] .
      have s2: "status fs1 ?tf = status fs ?tf" using cf(2)[of ?tf] tp(4) by simp
      have s3: "status fs1 (numbered_name ?tf k) = status fs (numbered_name ?tf k)" for k
        using cf(2)[of "numbered_name ?tf k"] by (simp add: numbered_name_length tp(2))
      have same: "snd (move_file env f ?tf True verbose fs1) = snd (move_file env f ?tf True verbose fs)"
      proof (rule move_file_dry_same_decision)
        show "exists_path fs1 ?tf = exists_path fs ?tf" using s2 by (simp add: exists_path_def)
        show "read_file fs1 f = read_file fs f" using s1 by (rule read_file_status)
        show "read_file fs1 ?tf = read_file fs ?tf" using s2 by (rule read_file_status)
        show "exists_path fs1 (numbered_name ?tf k) = exists_path fs (numbered_name ?tf k)" for k
          using s3[of k] by (simp add: exists_path_def)
      qed
      obtain a1 o1 e1 where r: "move_file env f ?tf False verbose fs1 = (a1, o1, e1)"
        by (cases "move_file env f ?tf False verbose fs1") auto
      obtain a2 o2 e2 where d: "move_file env f ?tf True verbose fs = (a2, o2, e2)"
        by (cases "move_file env f ?tf True verbose fs") auto
      obtain a3 o3 e3 where d1: "move_file env f ?tf True verbose fs1 = (a3, o3, e3)"
        by (cases "move_file env f ?tf True verbose fs1") auto
      have "o3 = o2" using same d d1 by simp
      with move_file_dry_or_not[of env f ?tf verbose fs1 verbose] r d1
      have rel: "o1 = performed o2 \<or> (\<exists>b. o2 = WouldMove f b \<and> o1 = FailedRename f b)"
        by simp
      have pr: "fst (snd (process_file env src attr th False verbose fs f)) = o1"
        using c True r by (simp add: process_file_directory_created[OF ex \<open>\<not> exists_path fs ?td\<close>])
      have pd: "fst (snd (process_file env src attr th True verbose fs f)) = o2"
        using d by (simp add: process_file_dry_run[OF ex \<open>\<not> exists_path fs ?td\<close>])
      show ?thesis unfolding pr pd using rel by blast
    qed
  qed
qed

text \<open>A dry run of the loop body returns the tree it was given, or that tree after the two reads.\<close>

lemma process_file_dry_eq:
  "process_file env src attr th True verbose fs f =
     (if \<not> exists_path fs f
      then (fs, SkippedMissing, if verbose then [Skipping_does_not_exist f] else [])
      else (fst (move_file env f (target_file_path env fs src attr th f) True verbose fs),
            fst (snd (move_file env f (target_file_path env fs src attr th f) True verbose fs)),
            snd (get_metadata_based_dir env fs f attr th) @
            (if \<not> exists_path fs (target_directory env fs src attr th f) \<and> verbose
             then [DryRun_would_create_directory (target_directory env fs src attr th f)] else []) @
            snd (snd (move_file env f (target_file_path env fs src attr th f) True verbose fs))))"
  by (simp add: process_file_def Let_def split: prod.splits)

lemma process_file_dry_result:
  "fst (process_file env src attr th True verbose fs f) = fs
   \<or> fst (process_file env src attr th True verbose fs f) =
       accessed env (target_file_path env fs src attr th f) (accessed env f fs)"
  using move_file_dry_result[of env f "target_file_path env fs src attr th f" verbose fs]
  by (simp add: process_file_dry_eq)

lemma process_file_dry_frame:
  "without_atimes (fst (process_file env src attr th True verbose fs f)) = without_atimes fs"
  using process_file_dry_result[of env src attr th verbose fs f]
  by (auto simp: without_atimes_accessed)

lemma process_file_dry_keeps:
  "\<forall>q i. atime_after_read env q i = atime i \<Longrightarrow>
   fst (process_file env src attr th True verbose fs f) = fs"
  using process_file_dry_result[of env src attr th verbose fs f]
  by (auto simp: accessed_keeps)

lemma process_file_dry_seen_after:
  assumes "attr = Access \<longrightarrow> (\<forall>q i. atime_after_read env q i = atime i)"
  shows "seen attr (fst (process_file env src attr th True verbose fs f)) q = seen attr fs q"
  using process_file_dry_result[of env src attr th verbose fs f]
  by (auto simp: seen_accessed[OF assms])

lemma process_file_dry_seen:
  assumes "\<And>q. seen attr fs1 q = seen attr fs q"
  shows "snd (process_file env src attr th True verbose fs1 f) =
         snd (process_file env src attr th True verbose fs f)"
proof -
  let ?tf = "target_file_path env fs src attr th f"
  have e: "exists_path fs1 q = exists_path fs q" for q
    using assms[of q] by (rule exists_path_seen)
  have r: "read_file fs1 q = read_file fs q" for q
    using assms[of q] by (rule read_file_seen)
  have g: "get_metadata_based_dir env fs1 f attr th = get_metadata_based_dir env fs f attr th"
    using assms[of f] by (rule get_metadata_based_dir_seen)
  have td: "target_directory env fs1 src attr th f = target_directory env fs src attr th f"
    using assms[of f] by (rule target_directory_seen)
  have tf: "target_file_path env fs1 src attr th f = ?tf"
    using assms[of f] by (rule target_file_path_seen)
  have m: "snd (move_file env f ?tf True verbose fs1) = snd (move_file env f ?tf True verbose fs)"
    by (rule move_file_dry_same_decision) (simp_all add: e r)
  show ?thesis
    unfolding process_file_dry_eq[of env src attr th verbose fs1 f]
      process_file_dry_eq[of env src attr th verbose fs f] g td tf e
    using m by (simp add: prod_eq_iff)
qed

lemma process_files_dry_frame:
  "without_atimes (fst (process_files env src attr th True verbose files fs)) = without_atimes fs"
proof (induction files arbitrary: fs)
  case Nil
  show ?case by simp
next
  case (Cons f files)
  obtain fs1 out ev where p: "process_file env src attr th True verbose fs f = (fs1, out, ev)"
    by (cases "process_file env src attr th True verbose fs f") auto
  obtain a b c where r: "process_files env src attr th True verbose files fs1 = (a, b, c)"
    by (cases "process_files env src attr th True verbose files fs1") auto
  have "without_atimes fs1 = without_atimes fs"
    using process_file_dry_frame[of env src attr th verbose fs f] p by simp
  moreover have "without_atimes a = without_atimes fs1" using Cons.IH[of fs1] r by simp
  ultimately show ?case using p r by simp
qed

lemma process_files_dry_keeps:
  assumes "\<forall>q i. atime_after_read env q i = atime i"
  shows "fst (process_files env src attr th True verbose files fs) = fs"
proof (induction files)
  case Nil
  show ?case by simp
next
  case (Cons f files)
  obtain out ev where p: "process_file env src attr th True verbose fs f = (fs, out, ev)"
    using process_file_dry_keeps[OF assms, of src attr th verbose fs f]
    by (cases "process_file env src attr th True verbose fs f") auto
  obtain a b c where r: "process_files env src attr th True verbose files fs = (a, b, c)"
    by (cases "process_files env src attr th True verbose files fs") auto
  with Cons.IH have "a = fs" by simp
  with p r show ?case by simp
qed

lemma process_files_dry:
  assumes "attr = Access \<longrightarrow> (\<forall>q i. atime_after_read env q i = atime i)"
    and "\<And>q. seen attr fs1 q = seen attr fs q"
  shows "snd (process_files env src attr th True verbose files fs1) =
     (map (\<lambda>f. fst (snd (process_file env src attr th True verbose fs f))) files,
      concat (map (\<lambda>f. snd (snd (process_file env src attr th True verbose fs f))) files))"
  using assms(2)
proof (induction files arbitrary: fs1)
  case Nil
  show ?case by simp
next
  case (Cons f files)
  obtain fs2 out ev where p: "process_file env src attr th True verbose fs1 f = (fs2, out, ev)"
    by (cases "process_file env src attr th True verbose fs1 f") auto
  obtain a b c where r: "process_files env src attr th True verbose files fs2 = (a, b, c)"
    by (cases "process_files env src attr th True verbose files fs2") auto
  have s: "snd (process_file env src attr th True verbose fs f) = (out, ev)"
    using process_file_dry_seen[of attr fs1 fs env src th verbose f, OF Cons.prems] p by simp
  have "seen attr fs2 q = seen attr fs q" for q
    using process_file_dry_seen_after[OF assms(1), of src th verbose fs1 f q] p Cons.prems[of q]
    by simp
  from Cons.IH[of fs2, OF this] r
  have "(b, c) = (map (\<lambda>f. fst (snd (process_file env src attr th True verbose fs f))) files,
      concat (map (\<lambda>f. snd (snd (process_file env src attr th True verbose fs f))) files))"
    by simp
  with p r s show ?case by simp
qed

lemma collected_files_regular:
  "f \<in> set (fst (collect_all_files src verbose fs)) \<Longrightarrow> is_regular_file fs f \<and> below src f"
  by (auto simp: collect_all_files_def recursive_directory_iterator_def split: if_splits)

text \<open>
  Claim C8, as the code has it. A dry run adds, removes, renames and rewrites nothing:
  the listing of the tree without the access times is after the run what it was before.
  What a dry run changes is the access time of the files it reads to compare them with
  an existing target; on a platform whose reads leave the access time as it is, it
  returns the file system it was given. When the files are not filed by their access
  time, or reads leave the access times as they are, the dry run judges every file of
  the snapshot as if the tree were unchanged: its outcomes and its log are those of the
  loop body applied to the initial tree, file by file. For each file of the snapshot,
  what the loop body does on that same tree when the run is not a dry run is what the
  dry run announced (an announced move is performed, a skip is a skip), unless creating
  the directory fails or the announced rename itself fails. Nothing is said of the whole
  sequence of a real run, which sees its own earlier moves.
\<close>

theorem dry_run_changes_nothing:
  "without_atimes (fst (move_files_by_extension_and_metadata env src attr th True verbose fs)) =
     without_atimes fs
   \<and> ((\<forall>p i. atime_after_read env p i = atime i) \<longrightarrow>
        fst (move_files_by_extension_and_metadata env src attr th True verbose fs) = fs)
   \<and> (attr \<noteq> Access \<or> (\<forall>p i. atime_after_read env p i = atime i) \<longrightarrow>
        snd (move_files_by_extension_and_metadata env src attr th True verbose fs) =
          (map (\<lambda>f. fst (snd (process_file env src attr th True verbose fs f)))
             (fst (collect_all_files src verbose fs)),
           snd (collect_all_files src verbose fs) @
           concat (map (\<lambda>f. snd (snd (process_file env src attr th True verbose fs f)))
             (fst (collect_all_files src verbose fs)))))
   \<and> (\<forall>f \<in> set (fst (collect_all_files src verbose fs)).
        fst (snd (process_file env src attr th False verbose fs f))
          = performed (fst (snd (process_file env src attr th True verbose fs f)))
      \<or> fst (snd (process_file env src attr th False verbose fs f))
          = FailedCreateDirectory (target_directory env fs src attr th f)
      \<or> (\<exists>t. fst (snd (process_file env src attr th True verbose fs f)) = WouldMove f t
             \<and> fst (snd (process_file env src attr th False verbose fs f)) = FailedRename f t))"
proof -
  let ?files = "fst (collect_all_files src verbose fs)"
  let ?run = "process_files env src attr th True verbose ?files fs"
  have m: "move_files_by_extension_and_metadata env src attr th True verbose fs =
      (fst ?run, fst (snd ?run), snd (collect_all_files src verbose fs) @ snd (snd ?run))"
    by (simp add: move_files_by_extension_and_metadata_def split: prod.splits)
  have frame: "without_atimes (fst (move_files_by_extension_and_metadata env src attr th True verbose fs)) =
     without_atimes fs"
    unfolding m by (simp add: process_files_dry_frame)
  have keeps: "fst (move_files_by_extension_and_metadata env src attr th True verbose fs) = fs"
    if "\<forall>p i. atime_after_read env p i = atime i"
    unfolding m using process_files_dry_keeps[OF that, of src attr th verbose ?files fs] by simp
  have judged: "snd (move_files_by_extension_and_metadata env src attr th True verbose fs) =
          (map (\<lambda>f. fst (snd (process_file env src attr th True verbose fs f))) ?files,
           snd (collect_all_files src verbose fs) @
           concat (map (\<lambda>f. snd (snd (process_file env src attr th True verbose fs f))) ?files))"
    if h: "attr \<noteq> Access \<or> (\<forall>p i. atime_after_read env p i = atime i)"
  proof -
    from h have h': "attr = Access \<longrightarrow> (\<forall>q i. atime_after_read env q i = atime i)" by blast
    have "snd ?run =
       (map (\<lambda>f. fst (snd (process_file env src attr th True verbose fs f))) ?files,
        concat (map (\<lambda>f. snd (snd (process_file env src attr th True verbose fs f))) ?files))"
      by (rule process_files_dry[OF h']) simp
    then show ?thesis unfolding m by (simp add: prod_eq_iff)
  qed
  have each: "\<forall>f \<in> set ?files.
        fst (snd (process_file env src attr th False verbose fs f))
          = performed (fst (snd (process_file env src attr th True verbose fs f)))
      \<or> fst (snd (process_file env src attr th False verbose fs f))
          = FailedCreateDirectory (target_directory env fs src attr th f)
      \<or> (\<exists>t. fst (snd (process_file env src attr th True verbose fs f)) = WouldMove f t
             \<and> fst (snd (process_file env src attr th False verbose fs f)) = FailedRename f t)"
    using process_file_dry_or_not collected_files_regular by blast
  show ?thesis using frame keeps judged each by blast
qed

text \<open>
  A file that meets its like at its target, and that target, which belongs to another
  day: the dry run reads both files and announces the move of the second; with
  \<^verbatim>\<open>noatime\<close> it changes nothing at all.
\<close>

theorem dry_run_changes_nothing_witness:
  "[''src'', ''txt'', ''2024'', ''01'', ''02'', ''small'', ''x.txt''] \<in> set (fst (collect_all_files [''src''] False stale_tree))
   \<and> Modification \<noteq> Access
   \<and> move_files_by_extension_and_metadata daily_platform [''src''] Modification default_thresholds
         True False stale_tree =
       ([([''src''], a_directory),
         ([''src'', ''x.txt''], (plain_file ''A'')\<lparr>atime := Some 5000000000\<rparr>),
         ([''src'', ''txt''], a_directory),
         ([''src'', ''txt'', ''2024''], a_directory),
         ([''src'', ''txt'', ''2024'', ''01''], a_directory),
         ([''src'', ''txt'', ''2024'', ''01'', ''02''], a_directory),
         ([''src'', ''txt'', ''2024'', ''01'', ''02'', ''small''], a_directory),
         ([''src'', ''txt'', ''2024'', ''01'', ''02'', ''small'', ''x.txt''],
          (late_file ''A'')\<lparr>atime := Some 5000000000\<rparr>)],
        [SkippedIdentical, WouldMove [''src'', ''txt'', ''2024'', ''01'', ''02'', ''small'', ''x.txt''] [''src'', ''txt'', ''2024'', ''01'', ''03'', ''small'', ''x.txt'']],
        [DryRun_would_move [''src'', ''txt'', ''2024'', ''01'', ''02'', ''small'', ''x.txt''] [''src'', ''txt'', ''2024'', ''01'', ''03'', ''small'', ''x.txt'']])
   \<and> without_atimes
        [([''src''], a_directory),
         ([''src'', ''x.txt''], (plain_file ''A'')\<lparr>atime := Some 5000000000\<rparr>),
         ([''src'', ''txt''], a_directory),
         ([''src'', ''txt'', ''2024''], a_directory),
         ([''src'', ''txt'', ''2024'', ''01''], a_directory),
         ([''src'', ''txt'', ''2024'', ''01'', ''02''], a_directory),
         ([''src'', ''txt'', ''2024'', ''01'', ''02'', ''small''], a_directory),
         ([''src'', ''txt'', ''2024'', ''01'', ''02'', ''small'', ''x.txt''],
          (late_file ''A'')\<lparr>atime := Some 5000000000\<rparr>)] = without_atimes stale_tree
   \<and> fst (snd (process_file daily_platform [''src''] Modification default_thresholds False False
         stale_tree [''src'', ''txt'', ''2024'', ''01'', ''02'', ''small'', ''x.txt''])) =
       Moved [''src'', ''txt'', ''2024'', ''01'', ''02'', ''small'', ''x.txt''] [''src'', ''txt'', ''2024'', ''01'', ''03'', ''small'', ''x.txt'']
   \<and> (\<forall>p i. atime_after_read noatime_platform p i = atime i)
   \<and> fst (move_files_by_extension_and_metadata noatime_platform [''src''] Modification default_thresholds
         True False stale_tree) = stale_tree"
proof -
  have a: "[''src'', ''txt'', ''2024'', ''01'', ''02'', ''small'', ''x.txt''] \<in> set (fst (collect_all_files [''src''] False stale_tree))"
    by code_simp
  have b: "move_files_by_extension_and_metadata daily_platform [''src''] Modification default_thresholds
         True False stale_tree =
       ([([''src''], a_directory),
         ([''src'', ''x.txt''], (plain_file ''A'')\<lparr>atime := Some 5000000000\<rparr>),
         ([''src'', ''txt''], a_directory),
         ([''src'', ''txt'', ''2024''], a_directory),
         ([''src'', ''txt'', ''2024'', ''01''], a_directory),
         ([''src'', ''txt'', ''2024'', ''01'', ''02''], a_directory),
         ([''src'', ''txt'', ''2024'', ''01'', ''02'', ''small''], a_directory),
         ([''src'', ''txt'', ''2024'', ''01'', ''02'', ''small'', ''x.txt''],
          (late_file ''A'')\<lparr>atime := Some 5000000000\<rparr>)],
        [SkippedIdentical, WouldMove [''src'', ''txt'', ''2024'', ''01'', ''02'', ''small'', ''x.txt''] [''src'', ''txt'', ''2024'', ''01'', ''03'', ''small'', ''x.txt'']],
        [DryRun_would_move [''src'', ''txt'', ''2024'', ''01'', ''02'', ''small'', ''x.txt''] [''src'', ''txt'', ''2024'', ''01'', ''03'', ''small'', ''x.txt'']])"
    by code_simp
  have c: "fst (snd (process_file daily_platform [''src''] Modification default_thresholds False False
         stale_tree [''src'', ''txt'', ''2024'', ''01'', ''02'', ''small'', ''x.txt''])) =
       Moved [''src'', ''txt'', ''2024'', ''01'', ''02'', ''small'', ''x.txt''] [''src'', ''txt'', ''2024'', ''01'', ''03'', ''small'', ''x.txt'']"
    by code_simp
  have n: "\<forall>p i. atime_after_read noatime_platform p i = atime i"
    by (simp add: noatime_platform_def)
  note d = dry_run_changes_nothing[of daily_platform "[''src'']" Modification default_thresholds False stale_tree]
  from d have f: "without_atimes (fst (move_files_by_extension_and_metadata daily_platform [''src''] Modification
      default_thresholds True False stale_tree)) = without_atimes stale_tree"
    by blast
  from dry_run_changes_nothing[of noatime_platform "[''src'']" Modification default_thresholds False stale_tree] n
  have k: "fst (move_files_by_extension_and_metadata noatime_platform [''src''] Modification default_thresholds
         True False stale_tree) = stale_tree"
    by blast
  from a b c n f k show ?thesis by simp
qed

text \<open>
  On that tree the announced moves are not the moves of the real run: the dry run sends
  both files to \<open>x.txt\<close>, the real run renames the second to \<open>x_1.txt\<close>.
\<close>

theorem dry_run_log_differs_counterexample:
  "intended_moves (snd (snd (move_files_by_extension_and_metadata willing_platform [''src''] Modification
       default_thresholds True False (collision_tree ''A'' ''B'')))) =
     [([''src'', ''in'', ''x.txt''], [''src'', ''txt'', ''2024'', ''01'', ''02'', ''small'', ''x.txt'']),
      ([''src'', ''out'', ''x.txt''], [''src'', ''txt'', ''2024'', ''01'', ''02'', ''small'', ''x.txt''])]
   \<and> performed_moves (fst (snd (move_files_by_extension_and_metadata willing_platform [''src''] Modification
       default_thresholds False False (collision_tree ''A'' ''B'')))) =
     [([''src'', ''in'', ''x.txt''], [''src'', ''txt'', ''2024'', ''01'', ''02'', ''small'', ''x.txt'']),
      ([''src'', ''out'', ''x.txt''], [''src'', ''txt'', ''2024'', ''01'', ''02'', ''small'', ''x_1.txt''])]
   \<and> intended_moves (snd (snd (move_files_by_extension_and_metadata willing_platform [''src''] Modification
       default_thresholds True False (collision_tree ''A'' ''B'')))) \<noteq>
     performed_moves (fst (snd (move_files_by_extension_and_metadata willing_platform [''src''] Modification
       default_thresholds False False (collision_tree ''A'' ''B''))))"
proof -
  have a: "intended_moves (snd (snd (move_files_by_extension_and_metadata willing_platform [''src''] Modification
       default_thresholds True False (collision_tree ''A'' ''B'')))) =
     [([''src'', ''in'', ''x.txt''], [''src'', ''txt'', ''2024'', ''01'', ''02'', ''small'', ''x.txt'']),
      ([''src'', ''out'', ''x.txt''], [''src'', ''txt'', ''2024'', ''01'', ''02'', ''small'', ''x.txt''])]"
    by code_simp
  have b: "performed_moves (fst (snd (move_files_by_extension_and_metadata willing_platform [''src''] Modification
       default_thresholds False False (collision_tree ''A'' ''B'')))) =
     [([''src'', ''in'', ''x.txt''], [''src'', ''txt'', ''2024'', ''01'', ''02'', ''small'', ''x.txt'']),
      ([''src'', ''out'', ''x.txt''], [''src'', ''txt'', ''2024'', ''01'', ''02'', ''small'', ''x_1.txt''])]"
    by code_simp
  show ?thesis unfolding a b by simp
qed
text \<open>
  Where the files are filed by their access time and reading updates it, a dry run
  changes what it judges. On the initial tree below the second file belongs to
  3 January and would be moved; the dry run, having read it to compare it with the
  first, files it under the day of the read and finds it in place.
\<close>

theorem dry_run_reads_change_access_dates:
  "map (\<lambda>f. fst (snd (process_file daily_platform [''src''] Access default_thresholds True False stale_tree f)))
      (fst (collect_all_files [''src''] False stale_tree)) =
     [SkippedIdentical, WouldMove [''src'', ''txt'', ''2024'', ''01'', ''02'', ''small'', ''x.txt''] [''src'', ''txt'', ''2024'', ''01'', ''03'', ''small'', ''x.txt'']]
   \<and> fst (snd (move_files_by_extension_and_metadata daily_platform [''src''] Access default_thresholds
       True False stale_tree)) =
     [SkippedIdentical, SkippedAlreadyCorrect]"
  by code_simp

end
